theory Spec2Isabelle
  imports Complex_Main "HOL-Library.Log_Nat"
begin

section \<open>Numeric representation\<close>

text \<open>
  The feature code computes on C++ \<open>double\<close> and indexes with \<open>size_t\<close>.
  The arithmetic of \<open>double\<close> is a parameter of the definitions: a record of the four
  operations, the zero a value-initialised \<open>double\<close> holds, and the conversion
  \<open>(double)n\<close> of a \<open>size_t\<close>. Nothing is assumed about the operations, so a
  statement proved for every such record holds for IEEE arithmetic as well as for exact
  arithmetic. Two arithmetics are defined below: \<open>double_arith\<close>, the rounding
  arithmetic of binary64, and \<open>exact_arith\<close>, the arithmetic of the real numbers,
  which no \<open>double\<close> computes.
\<close>

record 'a arith =
  dadd :: "'a \<Rightarrow> 'a \<Rightarrow> 'a"
  dsub :: "'a \<Rightarrow> 'a \<Rightarrow> 'a"
  dmul :: "'a \<Rightarrow> 'a \<Rightarrow> 'a"
  ddiv :: "'a \<Rightarrow> 'a \<Rightarrow> 'a"
  dzero :: "'a"
  of_size_t :: "nat \<Rightarrow> 'a"

text \<open>
  Exact arithmetic, the field of the real numbers: no rounding, no overflow. It is not the
  arithmetic of the code; it says what the formulas compute when no operation rounds, and
  it agrees with \<open>double\<close> on the computations whose every result is representable.
\<close>

definition exact_arith :: "real arith" where
  "exact_arith = \<lparr>dadd = (+), dsub = (-), dmul = (*), ddiv = (/), dzero = 0, of_size_t = real\<rparr>"

text \<open>
  IEEE 754 binary64 with the default rounding, on finite values. A result is the exact
  result rounded to the nearest number with a significand of 53 bits (52 bits below the
  leading one, the spacing never below \<open>2\<^sup>-\<^sup>1\<^sup>0\<^sup>7\<^sup>4\<close> of the subnormal numbers), a tie
  going to the even significand. Overflow to infinity, NaN and the sign of zero are not
  represented: the definition is binary64 wherever the exact result lies below
  \<open>2\<^sup>1\<^sup>0\<^sup>2\<^sup>4\<close> in magnitude and no division is by zero.
\<close>

text \<open>Rounding to the nearest integer, a tie going to the even one.\<close>

definition round_half_even :: "real \<Rightarrow> int" where
  "round_half_even x =
     (let f = \<lfloor>x\<rfloor>; r = x - of_int f
      in if r < 1 / 2 then f else if 1 / 2 < r then f + 1 else if even f then f else f + 1)"

text \<open>The binary exponent of a non-zero number: \<open>\<lfloor>log\<^sub>2 \<bar>x\<bar>\<rfloor>\<close>.\<close>

definition binade :: "real \<Rightarrow> int" where
  "binade x =
     (if 1 \<le> \<bar>x\<bar> then bitlen \<lfloor>\<bar>x\<bar>\<rfloor> - 1 else - bitlen (\<lceil>1 / \<bar>x\<bar>\<rceil> - 1))"

text \<open>\<open>2\<close> to an integer power.\<close>

definition scale2 :: "int \<Rightarrow> real" where
  "scale2 e = (if 0 \<le> e then 2 ^ nat e else 1 / 2 ^ nat (- e))"

text \<open>The nearest binary64 number.\<close>

definition round_binary64 :: "real \<Rightarrow> real" where
  "round_binary64 x =
     (if x = 0 then 0
      else let e = max (binade x - 52) (- 1074)
           in of_int (round_half_even (x / scale2 e)) * scale2 e)"

text \<open>
  The arithmetic of \<open>double\<close>: every operation returns its exact result correctly
  rounded, and the conversion of a \<open>size_t\<close> rounds as well.
\<close>

definition double_arith :: "real arith" where
  "double_arith =
     \<lparr>dadd = (\<lambda>a b. round_binary64 (a + b)), dsub = (\<lambda>a b. round_binary64 (a - b)),
      dmul = (\<lambda>a b. round_binary64 (a * b)), ddiv = (\<lambda>a b. round_binary64 (a / b)),
      dzero = 0, of_size_t = (\<lambda>n. round_binary64 (real n))\<rparr>"

text \<open>\<open>size_t\<close> is taken to be 64 bits wide; \<open>+\<close> and \<open>-\<close> on it wrap around.\<close>

definition size_t_add :: "nat \<Rightarrow> nat \<Rightarrow> nat" where
  "size_t_add a b = (a + b) mod 2 ^ 64"

definition size_t_sub :: "nat \<Rightarrow> nat \<Rightarrow> nat" where
  "size_t_sub a b = (a + (2 ^ 64 - b mod 2 ^ 64)) mod 2 ^ 64"

text \<open>\<open>std::vector<double>::resize(n)\<close>: truncate, or extend with value-initialised elements.\<close>

definition resize :: "'a arith \<Rightarrow> nat \<Rightarrow> 'a list \<Rightarrow> 'a list" where
  "resize A n xs = take n xs @ replicate (n - length xs) (dzero A)"

section \<open>Errors\<close>

text \<open>
  \<open>utilities::Exception\<close> carries an error code and a message. The other outcomes
  that return no value are outcomes of their own: a failed \<open>assert\<close>, the
  \<open>std::bad_cast\<close> of a \<open>dynamic_cast\<close> to a reference, an index outside a
  vector's bounds, and the fatal error of an LLVM pass.
\<close>

datatype ExceptionErrorCodes = invalidArgument | illegalState | badStringFormat

datatype error =
  Exception ExceptionErrorCodes string | AssertionFailure | BadCast | OutOfBounds | FatalError

section \<open>Feature and BufferedFeature\<close>

text \<open>
  A \<open>Feature*\<close> is an address; \<open>0\<close> is \<open>nullptr\<close>. The record holds the members
  that \<open>IncrementalVarianceFeature\<close> reads and writes: the id and input list of
  \<open>Feature\<close>, the lazily discovered output dimension, the window size and sample
  history of \<open>BufferedFeature\<close> (newest sample first), and the two running
  accumulators. All but the first two and the window size are \<open>mutable\<close> in the source.
\<close>

type_synonym FeaturePtr = nat

definition nullptr :: FeaturePtr where
  "nullptr = 0"

record 'a Feature =
  feature_id :: string
  inputFeatures :: "FeaturePtr list"
  outputDimension :: nat
  window_size :: nat
  samples :: "'a list list"
  runningSum :: "'a list"
  runningSumSq :: "'a list"

text \<open>
  The constructor \<open>IncrementalVarianceFeature(id, inputFeature, windowSize)\<close>: it passes
  \<open>{inputFeature}\<close> and \<open>windowSize\<close> to \<open>BufferedFeature\<close>; the vectors start empty.
\<close>

definition IncrementalVarianceFeature :: "string \<Rightarrow> FeaturePtr \<Rightarrow> nat \<Rightarrow> 'a Feature" where
  "IncrementalVarianceFeature fid inputFeature windowSize =
     \<lparr>feature_id = fid, inputFeatures = [inputFeature], outputDimension = 0,
      window_size = windowSize, samples = [], runningSum = [], runningSumSq = []\<rparr>"

definition GetWindowSize :: "'a Feature \<Rightarrow> nat" where
  "GetWindowSize f = window_size f"

text \<open>
  Modelled from the spec: \<open>BufferedFeature::GetDelayedSamples\<close> is declared in
  \<open>Feature.h\<close>, which is not among the sources. The spec: it returns the input sample
  from \<open>k\<close> steps ago, zero-filled (dimension matched, value zero) while the history
  is incomplete.
\<close>

definition GetDelayedSamples :: "'a arith \<Rightarrow> 'a Feature \<Rightarrow> nat \<Rightarrow> 'a list" where
  "GetDelayedSamples A f k =
     (if k < length (samples f) then samples f ! k
      else replicate (outputDimension f) (dzero A))"

text \<open>
  Modelled from the spec: \<open>BufferedFeature::UpdateRowSamples\<close> is declared in
  \<open>Feature.h\<close>, which is not among the sources. The spec: it pushes a new sample into
  the window, evicting the oldest if at capacity; the buffer holds the most recent
  \<open>windowSize\<close> samples.
\<close>

definition UpdateRowSamples :: "'a Feature \<Rightarrow> 'a list \<Rightarrow> 'a Feature" where
  "UpdateRowSamples f newSample = f\<lparr>samples := take (window_size f) (newSample # samples f)\<rparr>"

section \<open>IncrementalVarianceFeature::ComputeOutput\<close>

text \<open>
  One iteration of the loop of lines 68 to 76 at \<open>index\<close>: both accumulators are
  updated in place, then the result slot is written from the updated accumulators.
\<close>

definition variance_update ::
  "'a arith \<Rightarrow> 'a list \<Rightarrow> 'a list \<Rightarrow> nat \<Rightarrow> nat \<Rightarrow> 'a Feature \<times> 'a list \<Rightarrow> 'a Feature \<times> 'a list" where
  "variance_update A inputData oldData windowSize index = (\<lambda>(f, result).
     let newVal = inputData ! index;
         oldVal = oldData ! index;
         f1 = f\<lparr>runningSum := (runningSum f)
                [index := dadd A (runningSum f ! index) (dsub A newVal oldVal)]\<rparr>;
         f2 = f1\<lparr>runningSumSq := (runningSumSq f1)
                [index := dadd A (runningSumSq f1 ! index)
                            (dsub A (dmul A newVal newVal) (dmul A oldVal oldVal))]\<rparr>
     in (f2, result[index :=
           ddiv A (dsub A (runningSumSq f2 ! index)
                          (ddiv A (dmul A (runningSum f2 ! index) (runningSum f2 ! index))
                                  (of_size_t A windowSize)))
                  (of_size_t A windowSize)]))"

text \<open>
  \<open>ComputeOutput\<close> takes the feature and \<open>inputData\<close>, the current output of
  \<open>_inputFeatures[0]\<close>, and returns the feature as the call leaves it together with the
  exception thrown or the vector returned. The loop runs \<open>index\<close> over
  \<open>0 ..< inputDimension\<close>, where every vector it indexes has that length.
\<close>

definition ComputeOutput ::
  "'a arith \<Rightarrow> 'a Feature \<Rightarrow> 'a list \<Rightarrow> 'a Feature \<times> (error + 'a list)" where
  "ComputeOutput A f inputData =
     (if length (inputFeatures f) \<noteq> 1 then (f, Inl AssertionFailure)
      else
        let inputDimension = length inputData in
        if inputDimension = 0
        then (f, Inl (Exception invalidArgument ''Invalid input of size zero''))
        else
          let f1 = f\<lparr>outputDimension := inputDimension\<rparr>;
              windowSize = GetWindowSize f1;
              oldData = resize A inputDimension (GetDelayedSamples A f1 (size_t_sub windowSize 1));
              f2 = f1\<lparr>runningSum := resize A inputDimension (runningSum f1)\<rparr>;
              f3 = f2\<lparr>runningSumSq := resize A inputDimension (runningSumSq f2)\<rparr>;
              f4 = UpdateRowSamples f3 inputData;
              (f5, result) =
                 fold (variance_update A inputData oldData windowSize) [0..<inputDimension]
                   (f4, replicate inputDimension (dzero A))
          in (f5, Inr result))"

text \<open>Advancing the evaluator over a sample sequence, one call per tick.\<close>

fun ComputeOutputs :: "'a arith \<Rightarrow> 'a Feature \<Rightarrow> 'a list list \<Rightarrow> (error + 'a list) list" where
  "ComputeOutputs A f [] = []"
| "ComputeOutputs A f (x # xs) =
     (case ComputeOutput A f x of (f', r) \<Rightarrow> r # ComputeOutputs A f' xs)"

section \<open>The Layer graph\<close>

text \<open>
  Modelled from the spec: the \<open>layers\<close> library (\<open>Model\<close>, \<open>CoordinateList\<close>,
  \<open>ConstantLayer\<close>, \<open>ShiftRegisterLayer\<close>, \<open>AccumulatorLayer\<close>,
  \<open>BinaryOperationLayer\<close>, \<open>RepeatCoordinates\<close>) is included by the sources but is
  not among them. The spec: a Coordinate refers to one output slot of one Layer; a Model
  owns its Layers in creation order, which is also topological order; \<open>EmplaceLayer\<close>
  appends a Layer and returns its output CoordinateList; the Model exposes its last-created
  Layer. Layer index \<open>0\<close> is the Model's input, the Layer emplaced \<open>i\<close>-th has index
  \<open>i\<close>.
\<close>

type_synonym Coordinate = "nat \<times> nat"
type_synonym CoordinateList = "Coordinate list"

datatype OperationType = add | subtract | multiply | divide_op

datatype 'a Layer =
    ConstantLayer "'a list"
  | ShiftRegisterLayer CoordinateList nat
  | AccumulatorLayer CoordinateList
  | BinaryOperationLayer CoordinateList CoordinateList OperationType

type_synonym 'a Model = "'a Layer list"

text \<open>
  Modelled from the spec: a Layer has a fixed output width. A Constant is as wide as its
  literal values, an Accumulator and a BinaryOperation as wide as their input signal, and
  a ShiftRegister outputs its \<open>depth\<close> vectors, each as wide as its input.
\<close>

fun OutputSize :: "'a Layer \<Rightarrow> nat" where
  "OutputSize (ConstantLayer vs) = length vs"
| "OutputSize (ShiftRegisterLayer inputs depth) = length inputs * depth"
| "OutputSize (AccumulatorLayer inputs) = length inputs"
| "OutputSize (BinaryOperationLayer inputs1 inputs2 operation) = length inputs1"

text \<open>
  Modelled from the spec: \<open>Model::EmplaceLayer\<close> and \<open>Model::GetLastLayer\<close>.
  \<open>EmplaceLayer\<close> appends the new Layer and returns its output CoordinateList, one
  Coordinate for each output slot; \<open>GetLastLayer\<close> is the last-created Layer. The
  checks that construction makes on a Layer are \<open>accepts\<close>, further down.
\<close>

definition NumLayers :: "'a Model \<Rightarrow> nat" where
  "NumLayers model = length model + 1"

definition EmplaceLayer :: "'a Model \<Rightarrow> 'a Layer \<Rightarrow> 'a Model \<times> CoordinateList" where
  "EmplaceLayer model layer =
     (model @ [layer], map (\<lambda>e. (NumLayers model, e)) [0..<OutputSize layer])"

definition GetLastLayer :: "'a Model \<Rightarrow> 'a Layer option" where
  "GetLastLayer model = (if model = [] then None else Some (last model))"

text \<open>
  Modelled from the spec: \<open>RepeatCoordinates\<close> is declared in
  \<open>CoordinateListTools.h\<close>, which is not among the sources. The spec: the constant is
  broadcast to the input's width, so the coordinates are repeated \<open>n\<close> times.
\<close>

definition RepeatCoordinates :: "CoordinateList \<Rightarrow> nat \<Rightarrow> CoordinateList" where
  "RepeatCoordinates coordinates n = concat (replicate n coordinates)"

text \<open>
  Modelled from the spec: a shift register of depth \<open>depth\<close> over a signal of width
  \<open>n\<close> maintains the last \<open>depth\<close> pushed vectors and exposes, for \<open>0 \<le> k < depth\<close>,
  the coordinates of the sample delayed by \<open>k\<close> steps: its output is the \<open>depth\<close>
  vectors in a row, newest first, and the sample delayed by \<open>k\<close> occupies the slots
  \<open>k * n ..< k * n + n\<close>.
\<close>

fun GetDelayedOutputCoordinates :: "'a Layer \<Rightarrow> CoordinateList \<Rightarrow> nat \<Rightarrow> CoordinateList" where
  "GetDelayedOutputCoordinates (ShiftRegisterLayer inputs depth) outputCoordinates delay =
     take (length inputs) (drop (delay * length inputs) outputCoordinates)"
| "GetDelayedOutputCoordinates _ outputCoordinates delay = []"

text \<open>
  \<open>dynamic_cast<const ShiftRegisterLayer&>\<close> of the last Layer: the Layer itself when it
  is a shift register, otherwise \<open>std::bad_cast\<close>.
\<close>

fun dynamic_cast_ShiftRegisterLayer :: "'a Layer option \<Rightarrow> 'a Layer option" where
  "dynamic_cast_ShiftRegisterLayer (Some (ShiftRegisterLayer inputs depth)) =
     Some (ShiftRegisterLayer inputs depth)"
| "dynamic_cast_ShiftRegisterLayer _ = None"

text \<open>
  Modelled from the spec: the checks of construction. The spec: no Layer's CoordinateList
  ever references a Layer appended after it, and violating this during construction must
  be rejected; mismatched Layer input widths are a configuration error, fatal at the point
  of detection. A Coordinate is valid in a Model when it refers to the Model's input, whose
  width the Model does not record, or to an output slot of a Layer the Model holds.
  \<open>accepts\<close> is the check a Layer has to pass to enter the Model, and
  \<open>accepted_from\<close> the check of a row of Layers appended one after the other.
  \<open>EmplaceLayer\<close> above appends without it; what a theorem says of a successful
  lowering it says of Layers that pass it.
\<close>

definition valid_coordinate :: "'a Model \<Rightarrow> Coordinate \<Rightarrow> bool" where
  "valid_coordinate model c =
     (case c of (layerIndex, elementIndex) \<Rightarrow>
        layerIndex = 0 \<or>
        layerIndex \<le> length model \<and> elementIndex < OutputSize (model ! (layerIndex - 1)))"

text \<open>Modelled from the spec: the input CoordinateLists of a Layer.\<close>

fun LayerInputs :: "'a Layer \<Rightarrow> CoordinateList list" where
  "LayerInputs (ConstantLayer vs) = []"
| "LayerInputs (ShiftRegisterLayer inputs depth) = [inputs]"
| "LayerInputs (AccumulatorLayer inputs) = [inputs]"
| "LayerInputs (BinaryOperationLayer inputs1 inputs2 operation) = [inputs1, inputs2]"

text \<open>Modelled from the spec: a BinaryOperation takes two signals of equal width.\<close>

fun equal_widths :: "'a Layer \<Rightarrow> bool" where
  "equal_widths (BinaryOperationLayer inputs1 inputs2 operation) = (length inputs1 = length inputs2)"
| "equal_widths _ = True"

text \<open>Modelled from the spec: the Layer references only what the Model holds, at equal widths.\<close>

definition accepts :: "'a Model \<Rightarrow> 'a Layer \<Rightarrow> bool" where
  "accepts model layer \<longleftrightarrow>
     list_all (list_all (valid_coordinate model)) (LayerInputs layer) \<and> equal_widths layer"

text \<open>Modelled from the spec: each Layer of the row is accepted by the Model the earlier ones have extended.\<close>

fun accepted_from :: "'a Model \<Rightarrow> 'a Layer list \<Rightarrow> bool" where
  "accepted_from model [] = True"
| "accepted_from model (layer # layers) =
     (accepts model layer \<and> accepted_from (model @ [layer]) layers)"

section \<open>IncrementalVarianceFeature::AddToModel\<close>

text \<open>
  The lowering takes the Model and the map from lowered Features to their coordinates and
  returns the Model as the call leaves it, with the exception thrown or the coordinates
  returned. \<open>_inputFeatures[0]\<close> on an empty vector is outside the vector's bounds.
\<close>

definition AddToModel ::
  "'a arith \<Rightarrow> 'a Feature \<Rightarrow> 'a Model \<Rightarrow> (FeaturePtr \<rightharpoonup> CoordinateList) \<Rightarrow>
     'a Model \<times> (error + CoordinateList)" where
  "AddToModel A f model featureOutputs =
     (case inputFeatures f of
        [] \<Rightarrow> (model, Inl OutOfBounds)
      | inputFeature # _ \<Rightarrow>
     (case featureOutputs inputFeature of
        None \<Rightarrow> (model, Inl (Exception illegalState ''Couldn't find input feature''))
      | Some inputCoordinates \<Rightarrow>
          let inputDimension = length inputCoordinates;
              windowSize = GetWindowSize f;
              (model1, divisor) = EmplaceLayer model (ConstantLayer [of_size_t A windowSize]);
              divisorVector = RepeatCoordinates divisor inputDimension;
              (model2, bufferOutput) =
                 EmplaceLayer model1 (ShiftRegisterLayer inputCoordinates (size_t_add windowSize 1))
          in case dynamic_cast_ShiftRegisterLayer (GetLastLayer model2) of
               Some shiftRegisterLayer \<Rightarrow>
                 let oldestSample =
                        GetDelayedOutputCoordinates shiftRegisterLayer bufferOutput windowSize;
                     (model3, diff) = EmplaceLayer model2
                        (BinaryOperationLayer inputCoordinates oldestSample subtract);
                     (model4, runningSum) = EmplaceLayer model3 (AccumulatorLayer diff);
                     (model5, squaredSum) = EmplaceLayer model4
                        (BinaryOperationLayer runningSum runningSum multiply);
                     (model6, normSquaredSum) = EmplaceLayer model5
                        (BinaryOperationLayer squaredSum divisorVector divide_op);
                     (model7, newValueSquared) = EmplaceLayer model6
                        (BinaryOperationLayer inputCoordinates inputCoordinates multiply);
                     (model8, oldValueSquared) = EmplaceLayer model7
                        (BinaryOperationLayer oldestSample oldestSample multiply);
                     (model9, diffSquared) = EmplaceLayer model8
                        (BinaryOperationLayer newValueSquared oldValueSquared subtract);
                     (model10, runningSquaredSum) = EmplaceLayer model9 (AccumulatorLayer diffSquared);
                     (model11, varianceTimesN) = EmplaceLayer model10
                        (BinaryOperationLayer runningSquaredSum normSquaredSum subtract);
                     (model12, variance) = EmplaceLayer model11
                        (BinaryOperationLayer varianceTimesN divisorVector divide_op)
                 in (model12, Inr variance)
             | None \<Rightarrow> (model2, Inl BadCast)))"

section \<open>Executing a Model\<close>

text \<open>
  Modelled from the spec: the execution of a Model is not among the sources. The spec:
  execution-time state, the accumulators' running totals and the shift registers'
  contents, belongs to the runtime and not to the graph.
\<close>

datatype 'a LayerState = Stateless | Register "'a list list" | Accumulated "'a list"

text \<open>
  Modelled from the spec: a Coordinate identifies which produced value feeds a Layer.
  \<open>vals\<close> holds the Model's input vector at index \<open>0\<close> and the outputs of the
  Layers computed so far in this tick; a Coordinate that refers to none of their slots has
  no value.
\<close>

definition fetch :: "'a list list \<Rightarrow> Coordinate \<Rightarrow> 'a option" where
  "fetch vals c =
     (case c of (layerIndex, elementIndex) \<Rightarrow>
        if layerIndex < length vals \<and> elementIndex < length (vals ! layerIndex)
        then Some (vals ! layerIndex ! elementIndex) else None)"

definition fetchAll :: "'a list list \<Rightarrow> CoordinateList \<Rightarrow> 'a list option" where
  "fetchAll vals coordinates = those (map (fetch vals) coordinates)"

text \<open>Modelled from the spec: the operation of a BinaryOperation, applied to one pair of elements.\<close>

fun applyOperation :: "'a arith \<Rightarrow> OperationType \<Rightarrow> 'a \<Rightarrow> 'a \<Rightarrow> 'a" where
  "applyOperation A add = dadd A"
| "applyOperation A subtract = dsub A"
| "applyOperation A multiply = dmul A"
| "applyOperation A divide_op = ddiv A"

text \<open>
  Modelled from the spec: a delayed sample is zero before it has been pushed, and an
  Accumulator's running sum starts from zero.
\<close>

fun InitialState :: "'a arith \<Rightarrow> 'a Layer \<Rightarrow> 'a LayerState" where
  "InitialState A (ShiftRegisterLayer inputs depth) =
     Register (replicate depth (replicate (length inputs) (dzero A)))"
| "InitialState A (AccumulatorLayer inputs) = Accumulated (replicate (length inputs) (dzero A))"
| "InitialState A _ = Stateless"

text \<open>
  Modelled from the spec: one Layer in one tick. A Constant produces its literal values; a
  ShiftRegister pushes its input and maintains the last \<open>depth\<close> pushed vectors, the
  newest first; an Accumulator adds its input to the running sum of all values pushed to
  it; a BinaryOperation applies its operation elementwise to two signals of equal width.
  A missing input value or operands of different widths make the tick fail.
\<close>

fun computeLayer ::
  "'a arith \<Rightarrow> 'a list list \<Rightarrow> 'a Layer \<Rightarrow> 'a LayerState \<Rightarrow> ('a list \<times> 'a LayerState) option" where
  "computeLayer A vals (ConstantLayer vs) st = Some (vs, st)"
| "computeLayer A vals (ShiftRegisterLayer inputs depth) (Register buffer) =
     (case fetchAll vals inputs of
        None \<Rightarrow> None
      | Some x \<Rightarrow> let buffer' = take depth (x # buffer) in Some (concat buffer', Register buffer'))"
| "computeLayer A vals (AccumulatorLayer inputs) (Accumulated acc) =
     (case fetchAll vals inputs of
        None \<Rightarrow> None
      | Some x \<Rightarrow>
          if length acc = length x
          then let acc' = map2 (dadd A) acc x in Some (acc', Accumulated acc')
          else None)"
| "computeLayer A vals (BinaryOperationLayer inputs1 inputs2 operation) st =
     (case (fetchAll vals inputs1, fetchAll vals inputs2) of
        (Some x, Some y) \<Rightarrow>
          if length x = length y then Some (map2 (applyOperation A operation) x y, st) else None
      | _ \<Rightarrow> None)"
| "computeLayer A vals _ _ = None"

text \<open>
  Modelled from the spec: one tick computes the Layers in creation order, which is
  topological order; each output is appended to the values the later Layers read.
\<close>

fun computeLayers ::
  "'a arith \<Rightarrow> 'a Layer list \<Rightarrow> 'a LayerState list \<Rightarrow> 'a list list \<Rightarrow>
     ('a list list \<times> 'a LayerState list) option" where
  "computeLayers A [] [] vals = Some (vals, [])"
| "computeLayers A (layer # layers) (st # states) vals =
     (case computeLayer A vals layer st of
        None \<Rightarrow> None
      | Some (out, st') \<Rightarrow>
          (case computeLayers A layers states (vals @ [out]) of
             None \<Rightarrow> None
           | Some (vals', states') \<Rightarrow> Some (vals', st' # states')))"
| "computeLayers A _ _ vals = None"

text \<open>
  Modelled from the spec: the Model executed over a sequence of input vectors, one tick
  for each; the result is the values of every tick.
\<close>

fun simulate ::
  "'a arith \<Rightarrow> 'a Model \<Rightarrow> 'a LayerState list \<Rightarrow> 'a list list \<Rightarrow> 'a list list list option" where
  "simulate A model states [] = Some []"
| "simulate A model states (x # xs) =
     (case computeLayers A model states [x] of
        None \<Rightarrow> None
      | Some (vals, states') \<Rightarrow>
          (case simulate A model states' xs of
             None \<Rightarrow> None
           | Some rest \<Rightarrow> Some (vals # rest)))"

section \<open>IncrementalVarianceFeature::Create\<close>

text \<open>
  \<open>Feature::FeatureMap\<close> is declared in \<open>Feature.h\<close>, which is not among the
  sources. Line 126 indexes it with a \<open>std::string\<close> and assigns the result to a
  \<open>Feature*\<close>, through a reference that is not \<open>const\<close>: it is a standard associative
  container from strings to \<open>Feature*\<close>, whose \<open>operator[]\<close> inserts a
  value-initialised entry, the null pointer, for a key that has none.
\<close>

type_synonym FeatureMap = "string \<rightharpoonup> FeaturePtr"

definition FeatureMap_index :: "FeatureMap \<Rightarrow> string \<Rightarrow> FeaturePtr \<times> FeatureMap" where
  "FeatureMap_index m key =
     (case m key of Some p \<Rightarrow> (p, m) | None \<Rightarrow> (nullptr, m(key \<mapsto> nullptr)))"

text \<open>The conversion of an integer to \<open>uint64_t\<close>.\<close>

definition uint64_of_int :: "int \<Rightarrow> nat" where
  "uint64_of_int v = nat (v mod 2 ^ 64)"

text \<open>
  \<open>ParseInt\<close> is declared in \<open>StringUtil.h\<close>, which is not among the sources; it is
  a parameter of \<open>Create\<close>: a function from the text to the exception it throws or the
  integer it returns. \<open>Create\<close> returns the registry as the call leaves it, with the
  exception thrown or the feature constructed.
\<close>

definition Create ::
  "(string \<Rightarrow> error + int) \<Rightarrow> string list \<Rightarrow> FeatureMap \<Rightarrow> FeatureMap \<times> (error + 'a Feature)" where
  "Create ParseInt params previousFeatures =
     (if length params \<noteq> 4 then (previousFeatures, Inl AssertionFailure)
      else
        let featureId = params ! 0;
            (inputFeature, previousFeatures') = FeatureMap_index previousFeatures (params ! 2)
        in case ParseInt (params ! 3) of
             Inl e \<Rightarrow> (previousFeatures', Inl e)
           | Inr parsed \<Rightarrow>
               let windowSize = uint64_of_int parsed in
               if inputFeature = nullptr
               then (previousFeatures',
                     Inl (Exception badStringFormat
                            (''Error deserializing feature description: unknown input feature ''
                               @ params ! 2)))
               else (previousFeatures',
                     Inr (IncrementalVarianceFeature featureId inputFeature windowSize)))"

text \<open>
  Modelled from the spec: a \<open>ParseInt\<close> as the spec words it. The spec: the window size is
  parsed as an unsigned integer, malformed text is a fatal deserialization error. The text
  is a non-empty row of decimal digits, or the parser fails.
\<close>

definition digit_of :: "char \<Rightarrow> nat option" where
  "digit_of c =
     (let n = (of_char c :: nat) in if 48 \<le> n \<and> n \<le> 57 then Some (n - 48) else None)"

text \<open>Modelled from the spec: the value of a row of decimal digits.\<close>

fun decimal :: "nat \<Rightarrow> string \<Rightarrow> nat option" where
  "decimal acc [] = Some acc"
| "decimal acc (c # cs) =
     (case digit_of c of None \<Rightarrow> None | Some v \<Rightarrow> decimal (10 * acc + v) cs)"

text \<open>Modelled from the spec: the parser, failing with a deserialization error on malformed text.\<close>

definition ParseInt_spec :: "string \<Rightarrow> error + int" where
  "ParseInt_spec s =
     (case (if s = [] then None else decimal 0 s) of
        None \<Rightarrow> Inl (Exception badStringFormat ''Error deserializing feature description: malformed integer'')
      | Some v \<Rightarrow> Inr (int v))"

section \<open>IROptimizer\<close>

text \<open>
  The passes and the pass managers are LLVM's, an external library. A pass is known by what
  created it: the verifier, the function inliner with its arguments, or any other pass by
  its name. What \<open>PassManagerBuilder::populateFunctionPassManager\<close> and
  \<open>populateModulePassManager\<close> add for a given builder, and what a pass does to a
  function or a module, are parameters of the model. A pass manager runs its passes in the
  order they were added; a pass that reports a fatal error stops the run.
\<close>

datatype Pass = VerifierPass | FunctionInliningPass nat nat bool | LLVMPass string

record PassManagerBuilder =
  OptLevel :: nat
  SizeLevel :: nat
  Inliner :: "Pass option"
  LoopVectorize :: bool
  SLPVectorize :: bool

text \<open>A default-constructed \<open>llvm::PassManagerBuilder\<close>.\<close>

definition PassManagerBuilder_new :: PassManagerBuilder where
  "PassManagerBuilder_new =
     \<lparr>OptLevel = 2, SizeLevel = 0, Inliner = None, LoopVectorize = False, SLPVectorize = False\<rparr>"

text \<open>
  The optimizer holds two pass managers, \<open>_functionPasses\<close> and \<open>_modulePasses\<close>,
  each the list of the passes added to it; the constructor leaves both empty.
\<close>

record IROptimizer =
  functionPasses :: "Pass list"
  modulePasses :: "Pass list"

definition IROptimizer_new :: IROptimizer where
  "IROptimizer_new = \<lparr>functionPasses = [], modulePasses = []\<rparr>"

text \<open>
  \<open>AddStandardPasses\<close>, lines 38 to 58. \<open>doInitialization\<close> and
  \<open>adjustPassManager\<close>, which follow the population of both managers, add no pass:
  the one prepares the function passes, the other changes the local builder.
\<close>

definition AddStandardPasses ::
  "(PassManagerBuilder \<Rightarrow> Pass list) \<Rightarrow> (PassManagerBuilder \<Rightarrow> Pass list) \<Rightarrow>
     IROptimizer \<Rightarrow> IROptimizer" where
  "AddStandardPasses populateFunctionPassManager populateModulePassManager opt =
     (let opt1 = opt\<lparr>functionPasses := functionPasses opt @ [VerifierPass]\<rparr>;
          builder = PassManagerBuilder_new;
          builder = builder\<lparr>OptLevel := 3\<rparr>;
          builder = builder\<lparr>SizeLevel := 0\<rparr>;
          builder = builder\<lparr>Inliner :=
             Some (FunctionInliningPass (OptLevel builder) (SizeLevel builder) False)\<rparr>;
          builder = builder\<lparr>LoopVectorize := True\<rparr>;
          builder = builder\<lparr>SLPVectorize := True\<rparr>;
          opt2 = opt1\<lparr>functionPasses :=
             functionPasses opt1 @ populateFunctionPassManager builder\<rparr>;
          opt3 = opt2\<lparr>modulePasses := modulePasses opt2 @ populateModulePassManager builder\<rparr>
      in opt3)"

text \<open>The builder as lines 43 to 48 leave it.\<close>

definition standard_builder :: PassManagerBuilder where
  "standard_builder =
     \<lparr>OptLevel = 3, SizeLevel = 0, Inliner = Some (FunctionInliningPass 3 0 False),
      LoopVectorize = True, SLPVectorize = True\<rparr>"

text \<open>
  A pass manager's \<open>run\<close>: the passes in order, with the list of the passes that were
  executed.
\<close>

fun run :: "(Pass \<Rightarrow> 'ir \<Rightarrow> 'ir option) \<Rightarrow> Pass list \<Rightarrow> 'ir \<Rightarrow> Pass list \<times> (error + 'ir)" where
  "run runPass [] ir = ([], Inr ir)"
| "run runPass (p # ps) ir =
     (case runPass p ir of
        None \<Rightarrow> ([p], Inl FatalError)
      | Some ir' \<Rightarrow> (case run runPass ps ir' of (executed, r) \<Rightarrow> (p # executed, r)))"

text \<open>\<open>OptimizeFunction\<close> and \<open>OptimizeModule\<close>, lines 60 to 69.\<close>

definition OptimizeFunction ::
  "(Pass \<Rightarrow> 'f \<Rightarrow> 'f option) \<Rightarrow> IROptimizer \<Rightarrow> 'f option \<Rightarrow> Pass list \<times> (error + 'f)" where
  "OptimizeFunction runPass opt pFunction =
     (case pFunction of
        None \<Rightarrow> ([], Inl AssertionFailure)
      | Some function \<Rightarrow> run runPass (functionPasses opt) function)"

definition OptimizeModule ::
  "(Pass \<Rightarrow> 'm \<Rightarrow> 'm option) \<Rightarrow> IROptimizer \<Rightarrow> 'm \<Rightarrow> Pass list \<times> (error + 'm)" where
  "OptimizeModule runPass opt pModule = run runPass (modulePasses opt) pModule"

section \<open>The loop of ComputeOutput in closed form\<close>

text \<open>
  What one iteration writes at \<open>index = i\<close>: the two accumulator slots, and the result
  slot computed from them.
\<close>

definition sum_step :: "'a arith \<Rightarrow> 'a list \<Rightarrow> 'a list \<Rightarrow> 'a list \<Rightarrow> nat \<Rightarrow> 'a" where
  "sum_step A rs x old i = dadd A (rs ! i) (dsub A (x ! i) (old ! i))"

definition sumsq_step :: "'a arith \<Rightarrow> 'a list \<Rightarrow> 'a list \<Rightarrow> 'a list \<Rightarrow> nat \<Rightarrow> 'a" where
  "sumsq_step A rss x old i =
     dadd A (rss ! i) (dsub A (dmul A (x ! i) (x ! i)) (dmul A (old ! i) (old ! i)))"

definition variance_of :: "'a arith \<Rightarrow> nat \<Rightarrow> 'a \<Rightarrow> 'a \<Rightarrow> 'a" where
  "variance_of A w s sq = ddiv A (dsub A sq (ddiv A (dmul A s s) (of_size_t A w))) (of_size_t A w)"

lemma variance_update_fold:
  assumes "n \<le> d" "length (runningSum f) = d" "length (runningSumSq f) = d" "length result = d"
  shows "fold (variance_update A x old w) [0..<n] (f, result) =
     (f\<lparr>runningSum := map (\<lambda>i. if i < n then sum_step A (runningSum f) x old i else runningSum f ! i) [0..<d],
        runningSumSq := map (\<lambda>i. if i < n then sumsq_step A (runningSumSq f) x old i else runningSumSq f ! i) [0..<d]\<rparr>,
      map (\<lambda>i. if i < n then variance_of A w (sum_step A (runningSum f) x old i) (sumsq_step A (runningSumSq f) x old i)
                 else result ! i) [0..<d])"
  using assms
proof (induction n)
  case 0
  then show ?case
    using map_nth[of "runningSum f"] map_nth[of "runningSumSq f"] map_nth[of result] by simp
next
  case (Suc n)
  then have n: "n < d" by simp
  have IH: "fold (variance_update A x old w) [0..<n] (f, result) =
     (f\<lparr>runningSum := map (\<lambda>i. if i < n then sum_step A (runningSum f) x old i else runningSum f ! i) [0..<d],
        runningSumSq := map (\<lambda>i. if i < n then sumsq_step A (runningSumSq f) x old i else runningSumSq f ! i) [0..<d]\<rparr>,
      map (\<lambda>i. if i < n then variance_of A w (sum_step A (runningSum f) x old i) (sumsq_step A (runningSumSq f) x old i)
                 else result ! i) [0..<d])"
    using Suc by simp
  have upd: "z = F n \<Longrightarrow> (map (\<lambda>i. if i < n then F i else v i) [0..<d])[n := z] =
        map (\<lambda>i. if i < Suc n then F i else v i) [0..<d]" for F :: "nat \<Rightarrow> 'a" and v z
    using n by (auto intro!: nth_equalityI simp: nth_list_update less_Suc_eq)
  have "fold (variance_update A x old w) [0..<Suc n] (f, result) =
        variance_update A x old w n (fold (variance_update A x old w) [0..<n] (f, result))"
    by simp
  also have "\<dots> = variance_update A x old w n
     (f\<lparr>runningSum := map (\<lambda>i. if i < n then sum_step A (runningSum f) x old i else runningSum f ! i) [0..<d],
        runningSumSq := map (\<lambda>i. if i < n then sumsq_step A (runningSumSq f) x old i else runningSumSq f ! i) [0..<d]\<rparr>,
      map (\<lambda>i. if i < n then variance_of A w (sum_step A (runningSum f) x old i) (sumsq_step A (runningSumSq f) x old i)
                 else result ! i) [0..<d])"
    by (simp only: IH)
  also have "\<dots> = (f\<lparr>runningSum := map (\<lambda>i. if i < Suc n then sum_step A (runningSum f) x old i else runningSum f ! i) [0..<d],
        runningSumSq := map (\<lambda>i. if i < Suc n then sumsq_step A (runningSumSq f) x old i else runningSumSq f ! i) [0..<d]\<rparr>,
      map (\<lambda>i. if i < Suc n then variance_of A w (sum_step A (runningSum f) x old i) (sumsq_step A (runningSumSq f) x old i)
                 else result ! i) [0..<d])"
    using n Suc.prems
    by (simp add: variance_update_def Let_def upd sum_step_def sumsq_step_def variance_of_def)
  finally show ?case .
qed


lemma variance_update_loop:
  assumes "length (runningSum f) = d" "length (runningSumSq f) = d" "length result = d"
  shows "fold (variance_update A x old w) [0..<d] (f, result) =
     (f\<lparr>runningSum := map (sum_step A (runningSum f) x old) [0..<d],
        runningSumSq := map (sumsq_step A (runningSumSq f) x old) [0..<d]\<rparr>,
      map (\<lambda>i. variance_of A w (sum_step A (runningSum f) x old i) (sumsq_step A (runningSumSq f) x old i)) [0..<d])"
proof -
  have c: "map (\<lambda>i. if i < d then F i else G i) [0..<d] = map F [0..<d]" for F G :: "nat \<Rightarrow> 'a"
    by simp
  show ?thesis
    using variance_update_fold[OF le_refl assms, of A x old w] by (simp only: c)
qed

lemma length_resize [simp]: "length (resize A n xs) = n"
  by (simp add: resize_def)

lemma resize_same: "length xs = n \<Longrightarrow> resize A n xs = xs"
  by (simp add: resize_def)

text \<open>
  The same values as vectors: the sample leaving the window (\<open>oldData\<close> after its
  \<open>resize\<close>), the accumulators after the loop, and the vector the loop returns.
\<close>

definition leaving_sample :: "'a arith \<Rightarrow> 'a Feature \<Rightarrow> 'a list \<Rightarrow> 'a list" where
  "leaving_sample A f x =
     resize A (length x)
       (GetDelayedSamples A (f\<lparr>outputDimension := length x\<rparr>) (size_t_sub (window_size f) 1))"

definition next_runningSum :: "'a arith \<Rightarrow> 'a Feature \<Rightarrow> 'a list \<Rightarrow> 'a list" where
  "next_runningSum A f x =
     map2 (dadd A) (resize A (length x) (runningSum f)) (map2 (dsub A) x (leaving_sample A f x))"

definition next_runningSumSq :: "'a arith \<Rightarrow> 'a Feature \<Rightarrow> 'a list \<Rightarrow> 'a list" where
  "next_runningSumSq A f x =
     map2 (dadd A) (resize A (length x) (runningSumSq f))
       (map2 (dsub A) (map2 (dmul A) x x)
          (map2 (dmul A) (leaving_sample A f x) (leaving_sample A f x)))"

definition variance_vector :: "'a arith \<Rightarrow> nat \<Rightarrow> 'a list \<Rightarrow> 'a list \<Rightarrow> 'a list" where
  "variance_vector A w s sq =
     map2 (ddiv A)
       (map2 (dsub A) sq
          (map2 (ddiv A) (map2 (dmul A) s s) (replicate (length s) (of_size_t A w))))
       (replicate (length s) (of_size_t A w))"

lemma length_leaving_sample [simp]: "length (leaving_sample A f x) = length x"
  by (simp add: leaving_sample_def)

lemma length_next_runningSum [simp]: "length (next_runningSum A f x) = length x"
  by (simp add: next_runningSum_def)

lemma length_next_runningSumSq [simp]: "length (next_runningSumSq A f x) = length x"
  by (simp add: next_runningSumSq_def)

lemma ComputeOutput_closed:
  assumes "length (inputFeatures f) = 1" and "x \<noteq> []"
  shows "ComputeOutput A f x =
     (f\<lparr>outputDimension := length x,
        samples := take (window_size f) (x # samples f),
        runningSum := next_runningSum A f x,
        runningSumSq := next_runningSumSq A f x\<rparr>,
      Inr (variance_vector A (window_size f) (next_runningSum A f x) (next_runningSumSq A f x)))"
proof -
  let ?d = "length x"
  let ?old = "leaving_sample A f x"
  let ?rs = "resize A ?d (runningSum f)"
  let ?rss = "resize A ?d (runningSumSq f)"
  have s: "map (sum_step A ?rs x ?old) [0..<?d] = next_runningSum A f x"
    by (rule nth_equalityI) (simp_all add: next_runningSum_def sum_step_def)
  have sq: "map (sumsq_step A ?rss x ?old) [0..<?d] = next_runningSumSq A f x"
    by (rule nth_equalityI) (simp_all add: next_runningSumSq_def sumsq_step_def)
  have v: "map (\<lambda>i. variance_of A (window_size f) (sum_step A ?rs x ?old i) (sumsq_step A ?rss x ?old i)) [0..<?d]
      = variance_vector A (window_size f) (next_runningSum A f x) (next_runningSumSq A f x)"
    by (rule nth_equalityI)
       (simp_all add: variance_vector_def variance_of_def s[symmetric] sq[symmetric])
  let ?f4 = "f\<lparr>outputDimension := ?d, runningSum := ?rs, runningSumSq := ?rss,
               samples := take (window_size f) (x # samples f)\<rparr>"
  have loop: "fold (variance_update A x ?old (window_size f)) [0..<?d] (?f4, replicate ?d (dzero A)) =
     (?f4\<lparr>runningSum := next_runningSum A f x, runningSumSq := next_runningSumSq A f x\<rparr>,
      variance_vector A (window_size f) (next_runningSum A f x) (next_runningSumSq A f x))"
    by (subst variance_update_loop[where d = ?d]) (simp_all add: s sq v)
  show ?thesis
    using assms
    by (simp add: ComputeOutput_def Let_def GetWindowSize_def UpdateRowSamples_def
          leaving_sample_def[symmetric] loop del: One_nat_def)
qed

section \<open>Zero-width input\<close>

text \<open>
  C3. Whenever the input feature's current output vector is empty, \<open>ComputeOutput\<close>
  throws the invalid-argument exception and returns no vector; the feature is left as it
  was.
\<close>

theorem ComputeOutput_zero_width:
  "length (inputFeatures f) = 1 \<Longrightarrow>
   ComputeOutput A f [] = (f, Inl (Exception invalidArgument ''Invalid input of size zero''))"
  by (simp add: ComputeOutput_def)

theorem ComputeOutput_zero_width_witness:
  "length (inputFeatures (IncrementalVarianceFeature ''var'' 1 3 :: real Feature)) = 1 \<and>
   ComputeOutput exact_arith (IncrementalVarianceFeature ''var'' 1 3) [] =
     (IncrementalVarianceFeature ''var'' 1 3,
      Inl (Exception invalidArgument ''Invalid input of size zero''))"
  using ComputeOutput_zero_width [of "IncrementalVarianceFeature ''var'' 1 3 :: real Feature" exact_arith]
  by (simp add: IncrementalVarianceFeature_def)

section \<open>The output dimension\<close>

lemma length_variance_vector [simp]:
  "length s = n \<Longrightarrow> length sq = n \<Longrightarrow> length (variance_vector A w s sq) = n"
  by (simp add: variance_vector_def)

text \<open>
  C4, as claimed: once a first call has established the output dimension, a later call
  whose input has another non-zero dimension is an error. It is not: a feature of window
  size 2 that has computed its output for the one-dimensional sample \<open>[1]\<close> accepts the
  two-dimensional sample \<open>[1, 2]\<close>, returns a vector and has output dimension 2
  afterwards.
\<close>

theorem ComputeOutput_dimension_counterexample:
  "ComputeOutput exact_arith (IncrementalVarianceFeature ''var'' 1 2) [1] =
     (\<lparr>feature_id = ''var'', inputFeatures = [1], outputDimension = 1, window_size = 2,
       samples = [[1]], runningSum = [1], runningSumSq = [1]\<rparr>, Inr [1 / 4]) \<and>
   ComputeOutput exact_arith
     \<lparr>feature_id = ''var'', inputFeatures = [1], outputDimension = 1, window_size = 2,
      samples = [[1]], runningSum = [1], runningSumSq = [1]\<rparr> [1, 2] =
     (\<lparr>feature_id = ''var'', inputFeatures = [1], outputDimension = 2, window_size = 2,
       samples = [[1, 2], [1]], runningSum = [2, 2], runningSumSq = [2, 4]\<rparr>, Inr [0, 1])"
  by (simp add: ComputeOutput_closed IncrementalVarianceFeature_def next_runningSum_def
        next_runningSumSq_def leaving_sample_def variance_vector_def GetDelayedSamples_def
        size_t_sub_def resize_def exact_arith_def)

text \<open>
  C4, amended: every call of \<open>ComputeOutput\<close> whose input is not empty returns a vector
  of the input's dimension and leaves that dimension as the feature's output dimension,
  whatever dimension an earlier call had established.
\<close>

theorem ComputeOutput_sets_dimension:
  "length (inputFeatures f) = 1 \<Longrightarrow> x \<noteq> [] \<Longrightarrow>
   \<exists>r. snd (ComputeOutput A f x) = Inr r \<and> length r = length x \<and>
       outputDimension (fst (ComputeOutput A f x)) = length x"
  by (simp add: ComputeOutput_closed)

theorem ComputeOutput_sets_dimension_witness:
  "length (inputFeatures
      \<lparr>feature_id = ''var'', inputFeatures = [1], outputDimension = 1, window_size = 2,
       samples = [[1]], runningSum = [1], runningSumSq = [1::real]\<rparr>) = 1 \<and>
   [1, 2] \<noteq> ([] :: real list) \<and>
   (\<exists>r. snd (ComputeOutput exact_arith
        \<lparr>feature_id = ''var'', inputFeatures = [1], outputDimension = 1, window_size = 2,
         samples = [[1]], runningSum = [1], runningSumSq = [1]\<rparr> [1, 2]) = Inr r \<and>
      length r = 2 \<and>
      outputDimension (fst (ComputeOutput exact_arith
        \<lparr>feature_id = ''var'', inputFeatures = [1], outputDimension = 1, window_size = 2,
         samples = [[1]], runningSum = [1], runningSumSq = [1]\<rparr> [1, 2])) = 2)"
  using ComputeOutput_sets_dimension [of
      "\<lparr>feature_id = ''var'', inputFeatures = [1], outputDimension = 1, window_size = 2,
        samples = [[1]], runningSum = [1], runningSumSq = [1::real]\<rparr>" "[1, 2]" exact_arith]
  by (simp add: numeral_2_eq_2)

section \<open>ComputeOutput advances the feature\<close>

text \<open>
  C9. \<open>ComputeOutput\<close> is not a read-only query: every call with a non-empty input
  pushes the input sample into the window buffer and adds the difference between the
  entering and the leaving sample to the running sum, and the difference of their squares
  to the running sum of squares. Two calls on the same input push the sample twice and
  update the accumulators twice.
\<close>

theorem ComputeOutput_not_readonly:
  "length (inputFeatures f) = 1 \<Longrightarrow> x \<noteq> [] \<Longrightarrow>
   (case ComputeOutput A f x of (f1, r1) \<Rightarrow>
      (case ComputeOutput A f1 x of (f2, r2) \<Rightarrow>
         samples f1 = take (window_size f) (x # samples f) \<and>
         runningSum f1 = next_runningSum A f x \<and>
         runningSumSq f1 = next_runningSumSq A f x \<and>
         samples f2 = take (window_size f) (x # take (window_size f) (x # samples f)) \<and>
         runningSum f2 = next_runningSum A f1 x \<and>
         runningSumSq f2 = next_runningSumSq A f1 x))"
  by (simp add: ComputeOutput_closed)

theorem ComputeOutput_not_readonly_witness:
  "length (inputFeatures (IncrementalVarianceFeature ''var'' 1 2 :: real Feature)) = 1 \<and>
   [1] \<noteq> ([] :: real list) \<and>
   (case ComputeOutput exact_arith (IncrementalVarianceFeature ''var'' 1 2) [1] of (f1, r1) \<Rightarrow>
      (case ComputeOutput exact_arith f1 [1] of (f2, r2) \<Rightarrow>
         samples f1 = [[1]] \<and> runningSum f1 = [1] \<and> runningSumSq f1 = [1] \<and>
         samples f2 = [[1], [1]] \<and> runningSum f2 = [2] \<and> runningSumSq f2 = [2]))"
  using ComputeOutput_not_readonly [of "IncrementalVarianceFeature ''var'' 1 2 :: real Feature"
      "[1]" exact_arith]
  by (simp add: ComputeOutput_closed IncrementalVarianceFeature_def next_runningSum_def
        next_runningSumSq_def leaving_sample_def GetDelayedSamples_def
        size_t_sub_def resize_def exact_arith_def)

section \<open>The factory\<close>

text \<open>
  C6, as claimed: whenever the input feature id is not bound in the registry, \<open>Create\<close>
  fails with the error that names the missing id. It does not when the window size is
  malformed as well: \<open>ParseInt\<close> is called before the looked-up pointer is tested, so
  with a parser that rejects malformed text, as the spec requires, the parser's error is
  the one raised, and it does not name the id.
\<close>

theorem Create_unknown_input_counterexample:
  "(Map.empty :: FeatureMap) ''missing'' = None \<and>
   snd (Create ParseInt_spec [''var'', ''IncrementalVariance'', ''missing'', ''abc''] Map.empty
          :: FeatureMap \<times> (error + real Feature)) =
     Inl (Exception badStringFormat
            ''Error deserializing feature description: malformed integer'') \<and>
   snd (Create ParseInt_spec [''var'', ''IncrementalVariance'', ''missing'', ''abc''] Map.empty
          :: FeatureMap \<times> (error + real Feature)) \<noteq>
     Inl (Exception badStringFormat
            ''Error deserializing feature description: unknown input feature missing'')"
  by (simp add: Create_def FeatureMap_index_def ParseInt_spec_def digit_of_def)

text \<open>
  C6, amended: for every list of four parameters and every registry, if the fourth
  parameter does not parse, \<open>Create\<close> fails with the parser's error, whether or not the
  input feature id is bound. If it parses and the id is bound to no Feature (no entry, or
  a null entry), \<open>Create\<close> fails with the deserialization error whose message ends in
  the missing id. Otherwise it returns the feature constructed from the given id, the
  looked-up input feature and the parsed value converted to an unsigned 64-bit integer.
\<close>

theorem Create_result:
  "length params = 4 \<Longrightarrow>
   snd (Create ParseInt params previousFeatures :: FeatureMap \<times> (error + 'a Feature)) =
     (case ParseInt (params ! 3) of
        Inl e \<Rightarrow> Inl e
      | Inr parsed \<Rightarrow>
          (case previousFeatures (params ! 2) of
             None \<Rightarrow> Inl (Exception badStringFormat
                (''Error deserializing feature description: unknown input feature '' @ params ! 2))
           | Some inputFeature \<Rightarrow>
               if inputFeature = nullptr
               then Inl (Exception badStringFormat
                (''Error deserializing feature description: unknown input feature '' @ params ! 2))
               else Inr (IncrementalVarianceFeature (params ! 0) inputFeature (uint64_of_int parsed))))"
  by (simp add: Create_def FeatureMap_index_def Let_def split: sum.splits option.splits)

theorem Create_result_witness:
  "length [''var'', ''IncrementalVariance'', ''in'', ''3''] = 4 \<and>
   snd (Create ParseInt_spec [''var'', ''IncrementalVariance'', ''in'', ''3''] [''in'' \<mapsto> 5]
          :: FeatureMap \<times> (error + real Feature)) =
     Inr (IncrementalVarianceFeature ''var'' 5 3) \<and>
   snd (Create ParseInt_spec [''var'', ''IncrementalVariance'', ''other'', ''3''] [''in'' \<mapsto> 5]
          :: FeatureMap \<times> (error + real Feature)) =
     Inl (Exception badStringFormat
            ''Error deserializing feature description: unknown input feature other'')"
  using Create_result [of "[''var'', ''IncrementalVariance'', ''in'', ''3'']" ParseInt_spec
      "[''in'' \<mapsto> 5]", where ?'a = real]
    Create_result [of "[''var'', ''IncrementalVariance'', ''other'', ''3'']" ParseInt_spec
      "[''in'' \<mapsto> 5]", where ?'a = real]
  by (simp add: ParseInt_spec_def digit_of_def uint64_of_int_def nullptr_def)

text \<open>
  C10. On the missing-input-feature path \<open>Create\<close> leaves the caller's registry changed:
  the lookup of an id that has no entry inserts an entry with a null pointer under that id
  before the error is thrown.
\<close>

theorem Create_registry:
  "length params = 4 \<Longrightarrow> previousFeatures (params ! 2) = None \<Longrightarrow>
   Create ParseInt params previousFeatures =
     ((previousFeatures(params ! 2 \<mapsto> nullptr),
      (case ParseInt (params ! 3) of
         Inl e \<Rightarrow> Inl e
       | Inr parsed \<Rightarrow> Inl (Exception badStringFormat
           (''Error deserializing feature description: unknown input feature '' @ params ! 2))))
      :: FeatureMap \<times> (error + 'a Feature))"
  by (simp add: Create_def FeatureMap_index_def Let_def split: sum.splits option.splits)

theorem Create_registry_witness:
  "length [''var'', ''IncrementalVariance'', ''missing'', ''3''] = 4 \<and>
   (Map.empty :: FeatureMap) ''missing'' = None \<and>
   (Create ParseInt_spec [''var'', ''IncrementalVariance'', ''missing'', ''3''] Map.empty
      :: FeatureMap \<times> (error + real Feature)) =
     ([''missing'' \<mapsto> nullptr],
      Inl (Exception badStringFormat
             ''Error deserializing feature description: unknown input feature missing''))"
  using Create_registry [of "[''var'', ''IncrementalVariance'', ''missing'', ''3'']" Map.empty
      ParseInt_spec, where ?'a = real]
  by (simp add: ParseInt_spec_def digit_of_def)

section \<open>The order of the optimization passes\<close>

lemma AddStandardPasses_new:
  "AddStandardPasses pf pm IROptimizer_new =
     \<lparr>functionPasses = VerifierPass # pf standard_builder, modulePasses = pm standard_builder\<rparr>"
  by (simp add: AddStandardPasses_def IROptimizer_new_def PassManagerBuilder_new_def
        standard_builder_def Let_def)

text \<open>
  C7, as claimed: on every invocation of the configured pipeline, verification runs first
  and function-level optimization runs before module-level optimization. An invocation of
  \<open>OptimizeModule\<close> runs the module passes alone: neither the verifier nor any
  function-level pass has run before them.
\<close>

theorem OptimizeModule_order_counterexample:
  "OptimizeModule (\<lambda>p ir. Some ir)
     (AddStandardPasses (\<lambda>b. [LLVMPass ''early-cse'']) (\<lambda>b. [LLVMPass ''globalopt''])
        IROptimizer_new) () =
   ([LLVMPass ''globalopt''], Inr ())"
  by (simp add: AddStandardPasses_new OptimizeModule_def)

text \<open>
  C7, amended: after \<open>AddStandardPasses\<close> on a new optimizer, every invocation of
  \<open>OptimizeFunction\<close> runs the verifier first; when the verifier rejects the function
  no other pass runs, otherwise the builder's function-level passes follow in order.
  Every invocation of \<open>OptimizeModule\<close> runs the builder's module-level passes and
  nothing else. Which of the two is invoked first is the caller's choice.
\<close>

theorem OptimizeFunction_verifier_first:
  "OptimizeFunction runPass (AddStandardPasses pf pm IROptimizer_new) (Some fn) =
     (case runPass VerifierPass fn of
        None \<Rightarrow> ([VerifierPass], Inl FatalError)
      | Some fn' \<Rightarrow>
          (case run runPass (pf standard_builder) fn' of
             (executed, r) \<Rightarrow> (VerifierPass # executed, r)))
   \<and> OptimizeModule runPassM (AddStandardPasses pf pm IROptimizer_new) m =
       run runPassM (pm standard_builder) m"
  by (simp add: AddStandardPasses_new OptimizeFunction_def OptimizeModule_def)

section \<open>The window buffer\<close>

text \<open>
  The window after the samples \<open>hist\<close> (newest first) have been pushed: the last
  \<open>w\<close> of them, followed by zero vectors where fewer than \<open>w\<close> have been pushed.
\<close>

definition padded_window :: "'a arith \<Rightarrow> nat \<Rightarrow> nat \<Rightarrow> 'a list list \<Rightarrow> 'a list list" where
  "padded_window A w d hist = take w (hist @ replicate w (replicate d (dzero A)))"

lemma size_t_sub_1:
  assumes "0 < w" "w < 2 ^ 64"
  shows "size_t_sub w 1 = w - 1"
proof -
  have one: "(1::nat) mod 2 ^ 64 = 1"
    by simp
  have e: "w + (2 ^ 64 - 1) = (w - 1) + (2 ^ 64 :: nat)"
    using assms by simp
  have "size_t_sub w 1 = (w + (2 ^ 64 - 1)) mod 2 ^ 64"
    by (simp only: size_t_sub_def one)
  also have "\<dots> = ((w - 1) + 2 ^ 64) mod 2 ^ 64"
    by (simp only: e)
  also have "\<dots> = (w - 1) mod 2 ^ 64"
    by (rule mod_add_self2)
  also have "\<dots> = w - 1"
    using assms by (intro mod_less) simp
  finally show ?thesis .
qed

lemma size_t_sub_Suc_0 [simp]: "0 < w \<Longrightarrow> w < 2 ^ 64 \<Longrightarrow> size_t_sub w (Suc 0) = w - Suc 0"
  using size_t_sub_1 [of w] by simp

lemma size_t_add_1: "w + 1 < 2 ^ 64 \<Longrightarrow> size_t_add w 1 = w + 1"
  by (simp add: size_t_add_def)

lemma length_padded_window [simp]: "length (padded_window A w d hist) = w"
  by (simp add: padded_window_def)

lemma padded_window_lengths:
  "\<forall>s\<in>set hist. length s = d \<Longrightarrow> s \<in> set (padded_window A w d hist) \<Longrightarrow> length s = d"
  by (auto simp: padded_window_def dest!: in_set_takeD)

lemma padded_window_Cons:
  "0 < w \<Longrightarrow> padded_window A w d (x # hist) = x # butlast (padded_window A w d hist)"
proof -
  assume "0 < w"
  then obtain n where w: "w = Suc n" by (cases w) auto
  let ?L = "hist @ replicate w (replicate d (dzero A))"
  have "butlast (take w ?L) = take n ?L"
    by (subst butlast_take) (simp_all add: w)
  moreover have "take w ((x # hist) @ replicate w (replicate d (dzero A))) = x # take n ?L"
    by (simp add: w)
  ultimately show ?thesis
    by (simp only: padded_window_def)
qed

lemma padded_window_last:
  "0 < w \<Longrightarrow> padded_window A w d hist =
     butlast (padded_window A w d hist) @ [padded_window A w d hist ! (w - 1)]"
proof -
  assume "0 < w"
  then have "padded_window A w d hist \<noteq> []"
    by (metis length_padded_window length_0_conv less_numeral_extra(3))
  then have "padded_window A w d hist =
      butlast (padded_window A w d hist) @ [last (padded_window A w d hist)]"
    by simp
  moreover have "last (padded_window A w d hist) = padded_window A w d hist ! (w - 1)"
    using \<open>padded_window A w d hist \<noteq> []\<close> by (simp add: last_conv_nth)
  ultimately show ?thesis by simp
qed

lemma leaving_sample_window:
  assumes "0 < w" "w < 2 ^ 64" "window_size f = w" "samples f = take w hist"
    and "\<forall>s\<in>set hist. length s = d" "length x = d"
  shows "leaving_sample A f x = padded_window A w d hist ! (w - 1)"
proof (cases "w - 1 < length hist")
  case True
  then have "hist ! (w - 1) \<in> set hist" by simp
  then have "length (hist ! (w - 1)) = d" using assms(5) by blast
  then show ?thesis
    using True assms
    by (simp add: leaving_sample_def GetDelayedSamples_def padded_window_def
          nth_append resize_same)
next
  case False
  then show ?thesis
    using assms
    by (simp add: leaving_sample_def GetDelayedSamples_def padded_window_def
          nth_append resize_same)
qed

section \<open>The evaluator computes the population variance\<close>

lemma exact_arith_simps [simp]:
  "dadd exact_arith = (+)" "dsub exact_arith = (-)" "dmul exact_arith = (*)"
  "ddiv exact_arith = (/)" "dzero exact_arith = 0" "of_size_t exact_arith = real"
  by (simp_all add: exact_arith_def)

lemma bitlen_numeral [simp]:
  "bitlen (numeral n) = bitlen (numeral n div 2) + 1"
  by (subst compute_bitlen) simp

lemma bitlen_one [simp]: "bitlen 1 = 1"
  by (subst compute_bitlen) simp

lemma double_arith_simps [simp]:
  "dadd double_arith a b = round_binary64 (a + b)" "dsub double_arith a b = round_binary64 (a - b)"
  "dmul double_arith a b = round_binary64 (a * b)" "ddiv double_arith a b = round_binary64 (a / b)"
  "dzero double_arith = 0" "of_size_t double_arith n = round_binary64 (real n)"
  by (simp_all add: double_arith_def)

lemma round_half_even_of_int [simp]: "round_half_even (of_int m) = m"
  by (simp add: round_half_even_def)

lemma scale2_pos: "0 < scale2 e"
  by (simp add: scale2_def)

lemma round_binary64_of_int:
  assumes "\<bar>n\<bar> < 2 ^ 53"
  shows "round_binary64 (of_int n) = of_int n"
proof (cases "n = 0")
  case True
  then show ?thesis by (simp add: round_binary64_def)
next
  case False
  then have pos: "0 < \<bar>n\<bar>" by simp
  have "bitlen \<bar>n\<bar> \<le> 53"
    using assms by (simp add: bitlen_le_iff_power)
  moreover have "1 \<le> \<bar>real_of_int n\<bar>"
  proof -
    have "1 \<le> \<bar>n\<bar>" using pos by simp
    then have "real_of_int 1 \<le> real_of_int \<bar>n\<bar>" by (simp only: of_int_le_iff)
    then show ?thesis by simp
  qed
  moreover have "\<lfloor>\<bar>real_of_int n\<bar>\<rfloor> = \<bar>n\<bar>"
  proof -
    have "\<bar>real_of_int n\<bar> = real_of_int \<bar>n\<bar>" by simp
    then show ?thesis by (simp only: floor_of_int)
  qed
  ultimately have b: "binade (of_int n) - 52 \<le> 0"
    by (simp add: binade_def)
  define e where "e = max (binade (real_of_int n) - 52) (- 1074)"
  have e: "e \<le> 0" using b by (simp add: e_def)
  define k where "k = nat (- e)"
  have sc: "scale2 e = 1 / 2 ^ k"
    using e by (cases "e = 0") (simp_all add: scale2_def k_def)
  have "real_of_int n / scale2 e = of_int (n * 2 ^ k)"
    by (simp add: sc)
  then have "round_half_even (real_of_int n / scale2 e) = n * 2 ^ k"
    by (simp only: round_half_even_of_int)
  then show ?thesis
    using False by (simp add: round_binary64_def e_def [symmetric] Let_def sc)
qed

lemma round_binary64_exact:
  assumes "x \<in> \<int>" and "\<bar>x\<bar> < 2 ^ 53"
  shows "round_binary64 x = x"
proof -
  from assms(1) obtain n where x: "x = of_int n" by (auto elim: Ints_cases)
  have "\<bar>n\<bar> < 2 ^ 53"
  proof -
    have "real_of_int \<bar>n\<bar> < real_of_int (2 ^ 53)" using assms(2) by (simp add: x)
    then show ?thesis by (simp only: of_int_less_iff)
  qed
  then show ?thesis by (simp add: x round_binary64_of_int)
qed

text \<open>The exact sums of a window's samples and of their squares, in dimension \<open>i\<close>.\<close>

definition window_sum :: "real list list \<Rightarrow> nat \<Rightarrow> real" where
  "window_sum window i = (\<Sum>s\<leftarrow>window. s ! i)"

definition window_sum_sq :: "real list list \<Rightarrow> nat \<Rightarrow> real" where
  "window_sum_sq window i = (\<Sum>s\<leftarrow>window. s ! i * s ! i)"

text \<open>
  The population variance in dimension \<open>i\<close> recomputed directly from an explicit
  window, as the spec words it: \<open>(sumSq - sum\<^sup>2 / windowSize) / windowSize\<close>, with
  \<open>sum\<close> and \<open>sumSq\<close> the sums of the window's samples and of their squares, oldest
  sample first, every operation in the arithmetic \<open>A\<close>.
\<close>

definition direct_sum :: "'a arith \<Rightarrow> 'a list list \<Rightarrow> nat \<Rightarrow> 'a" where
  "direct_sum A window i = foldl (\<lambda>acc s. dadd A acc (s ! i)) (dzero A) window"

definition direct_sum_sq :: "'a arith \<Rightarrow> 'a list list \<Rightarrow> nat \<Rightarrow> 'a" where
  "direct_sum_sq A window i =
     foldl (\<lambda>acc s. dadd A acc (dmul A (s ! i) (s ! i))) (dzero A) window"

definition populationVariance :: "'a arith \<Rightarrow> nat \<Rightarrow> 'a list list \<Rightarrow> nat \<Rightarrow> 'a" where
  "populationVariance A windowSize window i =
     (let sum = direct_sum A window i;
          sumSq = direct_sum_sq A window i
      in ddiv A (dsub A sumSq (ddiv A (dmul A sum sum) (of_size_t A windowSize)))
           (of_size_t A windowSize))"

text \<open>
  An arithmetic is exact on the results in \<open>R\<close> when an addition, subtraction or
  multiplication whose exact result lies in \<open>R\<close> returns it. Sample values \<open>V\<close> are
  safe for a window of \<open>w\<close> samples when every difference, square, difference of
  squares, and every sum of up to \<open>w\<close> values or squares, lies in \<open>R\<close>.
\<close>

definition exact_results :: "real arith \<Rightarrow> real set \<Rightarrow> bool" where
  "exact_results A R \<longleftrightarrow>
     dzero A = 0 \<and>
     (\<forall>a b. a + b \<in> R \<longrightarrow> dadd A a b = a + b) \<and>
     (\<forall>a b. a - b \<in> R \<longrightarrow> dsub A a b = a - b) \<and>
     (\<forall>a b. a * b \<in> R \<longrightarrow> dmul A a b = a * b)"

definition safe_values :: "real set \<Rightarrow> nat \<Rightarrow> real set \<Rightarrow> bool" where
  "safe_values R w V \<longleftrightarrow>
     0 \<in> V \<and>
     (\<forall>a\<in>V. \<forall>b\<in>V. a - b \<in> R \<and> a * a \<in> R \<and> a * a - b * b \<in> R) \<and>
     (\<forall>vs. set vs \<subseteq> V \<and> length vs \<le> w \<longrightarrow>
        sum_list vs \<in> R \<and> (\<Sum>v\<leftarrow>vs. v * v) \<in> R)"

text \<open>
  The invariant of the evaluator after the samples \<open>hist\<close> (newest first), while no
  accumulator has rounded: the buffer holds the last \<open>w\<close> of them and the accumulators
  hold the exact sums over the zero-filled window.
\<close>

definition sums_inv :: "real arith \<Rightarrow> real set \<Rightarrow> nat \<Rightarrow> nat \<Rightarrow> real list list \<Rightarrow> real Feature \<Rightarrow> bool" where
  "sums_inv A V w d hist f \<longleftrightarrow>
     length (inputFeatures f) = 1 \<and> window_size f = w \<and> samples f = take w hist \<and>
     (\<forall>s\<in>set hist. length s = d \<and> set s \<subseteq> V) \<and>
     resize A d (runningSum f) = map (window_sum (padded_window A w d hist)) [0..<d] \<and>
     resize A d (runningSumSq f) = map (window_sum_sq (padded_window A w d hist)) [0..<d]"

lemma window_sum_shift:
  assumes "0 < w"
  shows "window_sum (padded_window A w d (x # hist)) i =
         window_sum (padded_window A w d hist) i + (x ! i - (padded_window A w d hist ! (w - 1)) ! i)"
proof -
  let ?P = "padded_window A w d hist"
  have "window_sum ?P i = window_sum (butlast ?P @ [?P ! (w - 1)]) i"
    using padded_window_last [OF assms, of A d hist] by simp
  then show ?thesis
    by (simp add: padded_window_Cons [OF assms] window_sum_def)
qed

lemma window_sum_sq_shift:
  assumes "0 < w"
  shows "window_sum_sq (padded_window A w d (x # hist)) i =
         window_sum_sq (padded_window A w d hist) i +
           (x ! i * x ! i - (padded_window A w d hist ! (w - 1)) ! i * (padded_window A w d hist ! (w - 1)) ! i)"
proof -
  let ?P = "padded_window A w d hist"
  have "window_sum_sq ?P i = window_sum_sq (butlast ?P @ [?P ! (w - 1)]) i"
    using padded_window_last [OF assms, of A d hist] by simp
  then show ?thesis
    by (simp add: padded_window_Cons [OF assms] window_sum_sq_def)
qed

lemma sums_inv_init:
  assumes "dzero A = 0"
  shows "sums_inv A V w d [] (IncrementalVarianceFeature fid p w)"
proof -
  have "replicate d 0 = map (window_sum (replicate w (replicate d 0))) [0..<d]"
    by (rule nth_equalityI) (simp_all add: window_sum_def sum_list_replicate)
  moreover have "replicate d 0 = map (window_sum_sq (replicate w (replicate d 0))) [0..<d]"
    by (rule nth_equalityI) (simp_all add: window_sum_sq_def sum_list_replicate)
  ultimately show ?thesis
    by (simp add: sums_inv_def IncrementalVarianceFeature_def resize_def padded_window_def assms)
qed

lemma padded_window_values:
  assumes "dzero A \<in> V" and "\<forall>s\<in>set hist. length s = d \<and> set s \<subseteq> V"
    and "s \<in> set (padded_window A w d hist)" and "i < d"
  shows "length s = d" and "s ! i \<in> V"
proof -
  from assms(3) have "s \<in> set hist \<or> s = replicate d (dzero A)"
    by (auto simp: padded_window_def dest!: in_set_takeD)
  then show "length s = d"
    using assms(2) by auto
  from \<open>s \<in> set hist \<or> s = replicate d (dzero A)\<close> show "s ! i \<in> V"
  proof
    assume "s \<in> set hist"
    then have "length s = d" "set s \<subseteq> V" using assms(2) by auto
    then show ?thesis using assms(4) nth_mem [of i s] by auto
  next
    assume "s = replicate d (dzero A)"
    then show ?thesis using assms(1,4) by simp
  qed
qed

lemma window_column:
  assumes "dzero A \<in> V" and "\<forall>s\<in>set hist. length s = d \<and> set s \<subseteq> V" and "i < d"
  shows "set (map (\<lambda>s. s ! i) (padded_window A w d hist)) \<subseteq> V"
    and "length (map (\<lambda>s. s ! i) (padded_window A w d hist)) \<le> w"
  using padded_window_values(2) [OF assms(1,2) _ assms(3)] by auto

lemma sums_step:
  assumes inv: "sums_inv A V w d hist f" and x: "length x = d" "set x \<subseteq> V" and d: "0 < d"
    and w: "0 < w" "w < 2 ^ 64"
    and ex: "exact_results A R" and safe: "safe_values R w V"
  shows "snd (ComputeOutput A f x) =
           Inr (map (\<lambda>i. variance_of A w (window_sum (padded_window A w d (x # hist)) i)
                                         (window_sum_sq (padded_window A w d (x # hist)) i)) [0..<d])"
    and "sums_inv A V w d (x # hist) (fst (ComputeOutput A f x))"
proof -
  let ?P = "padded_window A w d hist"
  let ?P' = "padded_window A w d (x # hist)"
  have one: "length (inputFeatures f) = 1" and ws: "window_size f = w"
    and sm: "samples f = take w hist" and len: "\<forall>s\<in>set hist. length s = d \<and> set s \<subseteq> V"
    and rs: "resize A d (runningSum f) = map (window_sum ?P) [0..<d]"
    and rss: "resize A d (runningSumSq f) = map (window_sum_sq ?P) [0..<d]"
    using inv by (simp_all add: sums_inv_def)
  have zero: "dzero A = 0" and zV: "dzero A \<in> V"
    using ex safe by (simp_all add: exact_results_def safe_values_def)
  have add: "a + b \<in> R \<Longrightarrow> dadd A a b = a + b" and sub: "a - b \<in> R \<Longrightarrow> dsub A a b = a - b"
    and mul: "a * b \<in> R \<Longrightarrow> dmul A a b = a * b" for a b
    using ex by (simp_all add: exact_results_def)
  have pair: "a - b \<in> R" "a * a \<in> R" "a * a - b * b \<in> R" if "a \<in> V" "b \<in> V" for a b
    using safe that by (simp_all add: safe_values_def)
  have lists: "sum_list vs \<in> R" "(\<Sum>v\<leftarrow>vs. v * v) \<in> R" if "set vs \<subseteq> V" "length vs \<le> w" for vs
    using safe that by (simp_all add: safe_values_def)
  have len': "\<forall>s\<in>set (x # hist). length s = d \<and> set s \<subseteq> V"
    using len x by simp
  have ne: "x \<noteq> []" using x d by auto
  have len0: "\<forall>s\<in>set hist. length s = d" using len by simp
  have old: "leaving_sample A f x = ?P ! (w - 1)"
    using leaving_sample_window [OF w ws sm len0 x(1)] .
  have oldin: "?P ! (w - 1) \<in> set ?P"
    using w(1) by (intro nth_mem) simp
  have oldlen: "length (?P ! (w - 1)) = d"
    using padded_window_values(1) [OF zV len oldin d] .
  have xi: "x ! i \<in> V" if "i < d" for i
    using x that by (auto simp: subset_iff)
  have oi: "?P ! (w - 1) ! i \<in> V" if "i < d" for i
    using padded_window_values(2) [OF zV len oldin that] .
  have ws': "window_sum ?P' i \<in> R" and wq': "window_sum_sq ?P' i \<in> R" if "i < d" for i
  proof -
    have c: "set (map (\<lambda>s. s ! i) ?P') \<subseteq> V" "length (map (\<lambda>s. s ! i) ?P') \<le> w"
      using window_column [OF zV len' that] .
    show "window_sum ?P' i \<in> R"
      using lists(1) [OF c] by (simp add: window_sum_def)
    show "window_sum_sq ?P' i \<in> R"
      using lists(2) [OF c] by (simp add: window_sum_sq_def comp_def)
  qed
  have s1: "next_runningSum A f x = map (window_sum ?P') [0..<d]"
  proof (rule nth_equalityI)
    show "length (next_runningSum A f x) = length (map (window_sum ?P') [0..<d])"
      by (simp add: x)
  next
    fix i assume "i < length (next_runningSum A f x)"
    then have i: "i < d" by (simp add: x)
    have "next_runningSum A f x ! i = dadd A (window_sum ?P i) (dsub A (x ! i) (?P ! (w - 1) ! i))"
      using i by (simp add: next_runningSum_def x rs old oldlen One_nat_def [symmetric] del: One_nat_def)
    also have "\<dots> = dadd A (window_sum ?P i) (x ! i - ?P ! (w - 1) ! i)"
      using pair(1) [OF xi [OF i] oi [OF i]] by (simp add: sub)
    also have "\<dots> = window_sum ?P' i"
      using ws' [OF i] by (simp add: add window_sum_shift [OF w(1)])
    finally show "next_runningSum A f x ! i = map (window_sum ?P') [0..<d] ! i"
      using i by simp
  qed
  have s2: "next_runningSumSq A f x = map (window_sum_sq ?P') [0..<d]"
  proof (rule nth_equalityI)
    show "length (next_runningSumSq A f x) = length (map (window_sum_sq ?P') [0..<d])"
      by (simp add: x)
  next
    fix i assume "i < length (next_runningSumSq A f x)"
    then have i: "i < d" by (simp add: x)
    let ?o = "?P ! (w - 1) ! i"
    have "next_runningSumSq A f x ! i =
        dadd A (window_sum_sq ?P i) (dsub A (dmul A (x ! i) (x ! i)) (dmul A ?o ?o))"
      using i by (simp add: next_runningSumSq_def x rss old oldlen One_nat_def [symmetric] del: One_nat_def)
    also have "\<dots> = dadd A (window_sum_sq ?P i) (dsub A (x ! i * x ! i) (?o * ?o))"
      using pair(2) [OF xi [OF i] oi [OF i]] pair(2) [OF oi [OF i] xi [OF i]] by (simp add: mul)
    also have "\<dots> = dadd A (window_sum_sq ?P i) (x ! i * x ! i - ?o * ?o)"
      using pair(3) [OF xi [OF i] oi [OF i]] by (simp add: sub)
    also have "\<dots> = window_sum_sq ?P' i"
      using wq' [OF i] by (simp add: add window_sum_sq_shift [OF w(1)])
    finally show "next_runningSumSq A f x ! i = map (window_sum_sq ?P') [0..<d] ! i"
      using i by simp
  qed
  have v: "variance_vector A w (next_runningSum A f x) (next_runningSumSq A f x) =
      map (\<lambda>i. variance_of A w (window_sum ?P' i) (window_sum_sq ?P' i)) [0..<d]"
    by (rule nth_equalityI) (simp_all add: variance_vector_def s1 s2 variance_of_def)
  have tk: "take w (x # take w hist) = take w (x # hist)"
    using w(1) by (cases w) simp_all
  show "snd (ComputeOutput A f x) =
           Inr (map (\<lambda>i. variance_of A w (window_sum ?P' i) (window_sum_sq ?P' i)) [0..<d])"
    by (simp add: ComputeOutput_closed [OF one ne] v ws)
  show "sums_inv A V w d (x # hist) (fst (ComputeOutput A f x))"
    using one ws len x
    by (simp add: ComputeOutput_closed [OF one ne] sums_inv_def sm tk s1 s2 resize_same)
qed

lemma length_ComputeOutputs [simp]: "length (ComputeOutputs A f xs) = length xs"
  by (induction xs arbitrary: f) (simp_all split: prod.splits)

lemma ComputeOutputs_sums:
  assumes "sums_inv A V w d hist f" and "\<forall>x\<in>set xs. length x = d \<and> set x \<subseteq> V" and "0 < d"
    and "0 < w" "w < 2 ^ 64" and "exact_results A R" and "safe_values R w V"
    and "k < length xs"
  shows "ComputeOutputs A f xs ! k =
     Inr (map (\<lambda>i. variance_of A w
                 (window_sum (padded_window A w d (rev (take (Suc k) xs) @ hist)) i)
                 (window_sum_sq (padded_window A w d (rev (take (Suc k) xs) @ hist)) i)) [0..<d])"
  using assms(1,2,8)
proof (induction xs arbitrary: f hist k)
  case Nil
  then show ?case by simp
next
  case (Cons x xs)
  have x: "length x = d" "set x \<subseteq> V" using Cons.prems(2) by simp_all
  obtain f' r where c: "ComputeOutput A f x = (f', r)"
    by (cases "ComputeOutput A f x")
  have r: "r = Inr (map (\<lambda>i. variance_of A w (window_sum (padded_window A w d (x # hist)) i)
                 (window_sum_sq (padded_window A w d (x # hist)) i)) [0..<d])"
    using sums_step(1) [OF Cons.prems(1) x assms(3,4,5,6,7)] c by simp
  have inv': "sums_inv A V w d (x # hist) f'"
    using sums_step(2) [OF Cons.prems(1) x assms(3,4,5,6,7)] c by simp
  show ?case
  proof (cases k)
    case 0
    then show ?thesis by (simp add: c r)
  next
    case (Suc j)
    then have "j < length xs" using Cons.prems(3) by simp
    then have "ComputeOutputs A f' xs ! j =
       Inr (map (\<lambda>i. variance_of A w
                 (window_sum (padded_window A w d (rev (take (Suc j) xs) @ x # hist)) i)
                 (window_sum_sq (padded_window A w d (rev (take (Suc j) xs) @ x # hist)) i)) [0..<d])"
      using Cons.IH [OF inv'] Cons.prems(2) by simp
    then show ?thesis by (simp add: c Suc)
  qed
qed

lemma nth_in_values: "length u = d \<Longrightarrow> set u \<subseteq> V \<Longrightarrow> i < d \<Longrightarrow> u ! i \<in> V"
  using nth_mem [of i u] by auto

lemma direct_sums_exact:
  assumes "exact_results A R" and "safe_values R w V"
    and "\<forall>s\<in>set win. length s = d \<and> set s \<subseteq> V" and "length win \<le> w" and "i < d"
  shows "direct_sum A win i = window_sum win i \<and> direct_sum_sq A win i = window_sum_sq win i"
  using assms(3,4)
proof (induction win rule: rev_induct)
  case Nil
  then show ?case
    using assms(1) by (simp add: direct_sum_def direct_sum_sq_def window_sum_def window_sum_sq_def
        exact_results_def)
next
  case (snoc s win)
  have add: "a + b \<in> R \<Longrightarrow> dadd A a b = a + b" and mul: "a * b \<in> R \<Longrightarrow> dmul A a b = a * b" for a b
    using assms(1) by (simp_all add: exact_results_def)
  have IH: "direct_sum A win i = window_sum win i" "direct_sum_sq A win i = window_sum_sq win i"
    using snoc by simp_all
  have si: "s ! i \<in> V"
    using snoc.prems(1) assms(5) by (intro nth_in_values [of s d]) simp_all
  have col: "set (map (\<lambda>s. s ! i) (win @ [s])) \<subseteq> V"
  proof
    fix v assume "v \<in> set (map (\<lambda>s. s ! i) (win @ [s]))"
    then obtain u where "u \<in> set (win @ [s])" "v = u ! i" by auto
    then show "v \<in> V"
      using snoc.prems(1) assms(5) nth_in_values [of u d V i] by auto
  qed
  have lists: "sum_list vs \<in> R" "(\<Sum>v\<leftarrow>vs. v * v) \<in> R" if "set vs \<subseteq> V" "length vs \<le> w" for vs
    using assms(2) that by (simp_all add: safe_values_def)
  have collen: "length (map (\<lambda>s. s ! i) (win @ [s])) \<le> w"
    using snoc.prems(2) by simp
  have "sum_list (map (\<lambda>s. s ! i) (win @ [s])) \<in> R"
    and "(\<Sum>v\<leftarrow>map (\<lambda>s. s ! i) (win @ [s]). v * v) \<in> R"
    using lists [OF col collen] .
  then have a: "window_sum win i + s ! i \<in> R" and b: "window_sum_sq win i + s ! i * s ! i \<in> R"
    by (simp_all add: window_sum_def window_sum_sq_def comp_def)
  have sq: "s ! i * s ! i \<in> R"
    using assms(2) si by (simp add: safe_values_def)
  have "direct_sum A (win @ [s]) i = dadd A (window_sum win i) (s ! i)"
    using IH(1) by (simp add: direct_sum_def)
  also have "\<dots> = window_sum (win @ [s]) i"
    using a by (simp add: add window_sum_def)
  finally have 1: "direct_sum A (win @ [s]) i = window_sum (win @ [s]) i" .
  have "direct_sum_sq A (win @ [s]) i = dadd A (window_sum_sq win i) (dmul A (s ! i) (s ! i))"
    using IH(2) by (simp add: direct_sum_sq_def)
  also have "\<dots> = window_sum_sq (win @ [s]) i"
    using b sq by (simp add: add mul window_sum_sq_def)
  finally have 2: "direct_sum_sq A (win @ [s]) i = window_sum_sq (win @ [s]) i" .
  from 1 2 show ?case by simp
qed

lemma window_sum_rev: "window_sum (rev window) = window_sum window"
  "window_sum_sq (rev window) = window_sum_sq window"
  by (rule ext, simp add: window_sum_def rev_map [symmetric])
     (rule ext, simp add: window_sum_sq_def rev_map [symmetric])

lemma population_variance_exact_results:
  assumes w: "0 < w" "w < 2 ^ 64" and d: "0 < d"
    and xs: "\<forall>x\<in>set xs. length x = d \<and> set x \<subseteq> V"
    and t: "w \<le> t" "t \<le> length xs"
    and ex: "exact_results A R" and safe: "safe_values R w V"
  shows "ComputeOutputs A (IncrementalVarianceFeature fid p w) xs ! (t - 1) =
     Inr (map (populationVariance A w (take w (drop (t - w) xs))) [0..<d])"
proof -
  let ?win = "take w (drop (t - w) xs)"
  have k: "t - 1 < length xs" and st: "Suc (t - 1) = t"
    using w(1) t by simp_all
  have zero: "dzero A = 0" using ex by (simp add: exact_results_def)
  have "padded_window A w d (rev (take t xs) @ []) = take w (rev (take t xs))"
    using t by (simp add: padded_window_def)
  also have "\<dots> = rev (drop (t - w) (take t xs))"
    using t by (simp add: take_rev)
  also have "drop (t - w) (take t xs) = ?win"
    using t by (simp add: drop_take)
  finally have win: "padded_window A w d (rev (take t xs) @ []) = rev ?win" .
  have winV: "\<forall>s\<in>set ?win. length s = d \<and> set s \<subseteq> V"
    using xs by (auto dest!: in_set_takeD in_set_dropD)
  have "map (\<lambda>i. variance_of A w (window_sum ?win i) (window_sum_sq ?win i)) [0..<d] =
        map (populationVariance A w ?win) [0..<d]"
  proof (rule map_cong [OF refl])
    fix i assume "i \<in> set [0..<d]"
    then have i: "i < d" by simp
    have "direct_sum A ?win i = window_sum ?win i \<and> direct_sum_sq A ?win i = window_sum_sq ?win i"
      by (rule direct_sums_exact [OF ex safe winV _ i]) simp
    then show "variance_of A w (window_sum ?win i) (window_sum_sq ?win i) =
        populationVariance A w ?win i"
      by (simp add: populationVariance_def variance_of_def Let_def)
  qed
  then show ?thesis
    using ComputeOutputs_sums [OF sums_inv_init [OF zero] xs d w ex safe k, of fid p]
    by (simp only: st win window_sum_rev)
qed

text \<open>An integer of magnitude at most \<open>B\<close>.\<close>

definition small_integer :: "nat \<Rightarrow> real \<Rightarrow> bool" where
  "small_integer B v \<longleftrightarrow> of_int \<lfloor>v\<rfloor> = v \<and> \<bar>v\<bar> \<le> real B"

lemma exact_results_exact_arith: "exact_results exact_arith UNIV"
  by (simp add: exact_results_def)

lemma safe_values_UNIV: "safe_values UNIV w UNIV"
  by (simp add: safe_values_def)

lemma exact_results_double_arith: "exact_results double_arith {x. x \<in> \<int> \<and> \<bar>x\<bar> < 2 ^ 53}"
  by (simp add: exact_results_def round_binary64_exact)

lemma sum_list_Ints: "set vs \<subseteq> \<int> \<Longrightarrow> sum_list vs \<in> (\<int> :: real set)"
  by (induction vs) simp_all

lemma sum_list_abs_bound:
  "\<forall>v\<in>set vs. \<bar>v\<bar> \<le> b \<Longrightarrow> \<bar>sum_list vs\<bar> \<le> real (length vs) * (b :: real)"
proof (induction vs)
  case Nil
  then show ?case by simp
next
  case (Cons v vs)
  then have "\<bar>v\<bar> \<le> b" "\<bar>sum_list vs\<bar> \<le> real (length vs) * b" by simp_all
  then show ?case by (simp add: algebra_simps)
qed

lemma square_bound:
  assumes "\<bar>v\<bar> \<le> (b :: real)"
  shows "v * v \<le> b * b"
proof -
  have "0 \<le> b" using assms by linarith
  then have "\<bar>v\<bar> * \<bar>v\<bar> \<le> b * b"
    using assms by (intro mult_mono) simp_all
  then show ?thesis by simp
qed

lemma safe_values_small_integers:
  assumes "w * B\<^sup>2 < 2 ^ 53" and "0 < w"
  shows "safe_values {x. x \<in> \<int> \<and> \<bar>x\<bar> < 2 ^ 53} w {v. v \<in> \<int> \<and> \<bar>v\<bar> \<le> real B}"
proof -
  let ?M = "2 ^ 53 :: real"
  have wB: "real w * (real B * real B) < ?M"
  proof -
    have "real (w * B\<^sup>2) < real (2 ^ 53)" using assms(1) by (simp only: of_nat_less_iff)
    then show ?thesis by (simp add: power2_eq_square)
  qed
  have w1: "1 \<le> real w" using assms(2) by simp
  have B0: "0 \<le> real B" by simp
  have BB: "real B * real B < ?M"
  proof -
    have "1 * (real B * real B) \<le> real w * (real B * real B)"
      using w1 by (intro mult_right_mono) simp_all
    then show ?thesis using wB by simp
  qed
  have B1: "real B \<le> real B * real B"
  proof (cases "B = 0")
    case True then show ?thesis by simp
  next
    case False
    then have "1 \<le> real B" by simp
    then have "real B * 1 \<le> real B * real B" by (intro mult_left_mono) simp_all
    then show ?thesis by simp
  qed
  have twoB: "2 * real B < ?M"
  proof (cases "B < 2")
    case True
    then have "real B < 2" by simp
    then show ?thesis by simp
  next
    case False
    then have "2 \<le> real B" by simp
    then have "2 * real B \<le> real B * real B" by (intro mult_right_mono) simp_all
    then show ?thesis using BB by simp
  qed
  have pair: "a - b \<in> \<int> \<and> \<bar>a - b\<bar> < ?M \<and> a * a \<in> \<int> \<and> \<bar>a * a\<bar> < ?M \<and>
      a * a - b * b \<in> \<int> \<and> \<bar>a * a - b * b\<bar> < ?M"
    if a: "a \<in> \<int>" "\<bar>a\<bar> \<le> real B" and b: "b \<in> \<int>" "\<bar>b\<bar> \<le> real B" for a b :: real
  proof -
    have "\<bar>a - b\<bar> \<le> \<bar>a\<bar> + \<bar>b\<bar>" by simp
    then have 1: "\<bar>a - b\<bar> < ?M" using a(2) b(2) twoB by linarith
    have aa: "a * a \<le> real B * real B" "0 \<le> a * a" using square_bound [OF a(2)] by simp_all
    have bb: "b * b \<le> real B * real B" "0 \<le> b * b" using square_bound [OF b(2)] by simp_all
    have 2: "\<bar>a * a\<bar> < ?M" using aa BB by simp
    have 3: "\<bar>a * a - b * b\<bar> < ?M" using aa bb BB by linarith
    show ?thesis using a(1) b(1) 1 2 3 by simp
  qed
  have lists: "sum_list vs \<in> \<int> \<and> \<bar>sum_list vs\<bar> < ?M \<and>
      (\<Sum>v\<leftarrow>vs. v * v) \<in> \<int> \<and> \<bar>\<Sum>v\<leftarrow>vs. v * v\<bar> < ?M"
    if vs: "set vs \<subseteq> {v. v \<in> \<int> \<and> \<bar>v\<bar> \<le> real B}" and len: "length vs \<le> w" for vs :: "real list"
  proof -
    have lw: "real (length vs) \<le> real w" using len by simp
    have i1: "set vs \<subseteq> \<int>" and b1: "\<forall>v\<in>set vs. \<bar>v\<bar> \<le> real B" using vs by auto
    have "\<bar>sum_list vs\<bar> \<le> real (length vs) * real B" using sum_list_abs_bound [OF b1] .
    also have "\<dots> \<le> real w * real B" using lw by (intro mult_right_mono) simp_all
    also have "\<dots> \<le> real w * (real B * real B)" using B1 by (intro mult_left_mono) simp_all
    finally have 1: "\<bar>sum_list vs\<bar> < ?M" using wB by simp
    have i2: "set (map (\<lambda>v. v * v) vs) \<subseteq> \<int>" using i1 by auto
    have b2: "\<forall>v\<in>set (map (\<lambda>v. v * v) vs). \<bar>v\<bar> \<le> real B * real B"
      using b1 square_bound by auto
    have "\<bar>\<Sum>v\<leftarrow>vs. v * v\<bar> \<le> real (length (map (\<lambda>v. v * v) vs)) * (real B * real B)"
      using sum_list_abs_bound [OF b2] .
    also have "\<dots> \<le> real w * (real B * real B)" using lw by (intro mult_right_mono) simp_all
    finally have 2: "\<bar>\<Sum>v\<leftarrow>vs. v * v\<bar> < ?M" using wB by simp
    show ?thesis using sum_list_Ints [OF i1] sum_list_Ints [OF i2] 1 2 by simp
  qed
  show ?thesis
    unfolding safe_values_def
  proof (intro conjI ballI allI impI)
    show "0 \<in> {v. v \<in> \<int> \<and> \<bar>v\<bar> \<le> real B}" by simp
  next
    fix a b :: real
    assume "a \<in> {v. v \<in> \<int> \<and> \<bar>v\<bar> \<le> real B}" "b \<in> {v. v \<in> \<int> \<and> \<bar>v\<bar> \<le> real B}"
    then have ab: "a \<in> \<int>" "\<bar>a\<bar> \<le> real B" "b \<in> \<int>" "\<bar>b\<bar> \<le> real B"
      by (simp_all only: mem_Collect_eq)
    show "a - b \<in> {x. x \<in> \<int> \<and> \<bar>x\<bar> < ?M}" "a * a \<in> {x. x \<in> \<int> \<and> \<bar>x\<bar> < ?M}"
      "a * a - b * b \<in> {x. x \<in> \<int> \<and> \<bar>x\<bar> < ?M}"
      using pair [OF ab] by (simp_all only: mem_Collect_eq simp_thms)
  next
    fix vs :: "real list"
    assume "set vs \<subseteq> {v. v \<in> \<int> \<and> \<bar>v\<bar> \<le> real B} \<and> length vs \<le> w"
    then have v: "set vs \<subseteq> {v. v \<in> \<int> \<and> \<bar>v\<bar> \<le> real B}" "length vs \<le> w"
      by (simp_all only: simp_thms)
    show "sum_list vs \<in> {x. x \<in> \<int> \<and> \<bar>x\<bar> < ?M}"
      "(\<Sum>v\<leftarrow>vs. v * v) \<in> {x. x \<in> \<int> \<and> \<bar>x\<bar> < ?M}"
      using lists [OF v] by (simp_all only: mem_Collect_eq simp_thms)
  qed
qed

lemma small_integer_values:
  "list_all (list_all (small_integer B)) xs \<Longrightarrow>
   \<forall>x\<in>set xs. set x \<subseteq> {v. v \<in> \<int> \<and> \<bar>v\<bar> \<le> real B}"
proof (intro ballI subsetI)
  fix x v
  assume a: "list_all (list_all (small_integer B)) xs" and "x \<in> set xs" and "v \<in> set x"
  then have "small_integer B v" by (auto simp: list_all_iff)
  then have fl: "real_of_int \<lfloor>v\<rfloor> = v" and b: "\<bar>v\<bar> \<le> real B"
    unfolding small_integer_def by blast+
  have "v \<in> \<int>" by (subst fl [symmetric]) (rule Ints_of_int)
  then show "v \<in> {v. v \<in> \<int> \<and> \<bar>v\<bar> \<le> real B}" using b by simp
qed

text \<open>
  C2, amended. Samples of one non-zero dimension are fed tick by tick to a new feature of
  window size \<open>windowSize\<close>, from 1 to \<open>2\<^sup>6\<^sup>4 - 1\<close>. In exact arithmetic, and in
  binary64 arithmetic when the samples are integers of magnitude at most \<open>B\<close> with
  \<open>windowSize * B\<^sup>2 < 2\<^sup>5\<^sup>3\<close>, so that no accumulator rounds, the output at every tick
  \<open>t\<close> from \<open>windowSize\<close> on equals, in every dimension, the population variance
  recomputed directly from the last \<open>windowSize\<close> samples in the same arithmetic. For
  dimension 1, window size 3 and the stream \<open>[1, 2, 3, 4, 5]\<close> the outputs at ticks 3,
  4 and 5 are \<open>2 / 3\<close> each in exact arithmetic, and the binary64 number nearest to
  \<open>2 / 3\<close> each in binary64 arithmetic.
\<close>

theorem ComputeOutput_population_variance:
  assumes "0 < windowSize" and "windowSize < 2 ^ 64" and "0 < d"
    and "list_all (\<lambda>x. length x = d) xs"
    and "windowSize \<le> t" and "t \<le> length xs"
    and "A = exact_arith \<or>
         A = double_arith \<and> list_all (list_all (small_integer B)) xs \<and> windowSize * B\<^sup>2 < 2 ^ 53"
  shows "ComputeOutputs A (IncrementalVarianceFeature fid inputFeature windowSize) xs ! (t - 1) =
     Inr (map (populationVariance A windowSize (take windowSize (drop (t - windowSize) xs))) [0..<d])"
  using assms(7)
proof
  assume A: "A = exact_arith"
  have xs: "\<forall>x\<in>set xs. length x = d \<and> set x \<subseteq> UNIV"
    using assms(4) by (simp add: list_all_iff)
  show ?thesis
    unfolding A
    by (rule population_variance_exact_results
          [OF assms(1,2,3) xs assms(5,6) exact_results_exact_arith safe_values_UNIV])
next
  assume "A = double_arith \<and> list_all (list_all (small_integer B)) xs \<and> windowSize * B\<^sup>2 < 2 ^ 53"
  then have A: "A = double_arith" and small: "list_all (list_all (small_integer B)) xs"
    and bound: "windowSize * B\<^sup>2 < 2 ^ 53" by simp_all
  have xs: "\<forall>x\<in>set xs. length x = d \<and> set x \<subseteq> {v. v \<in> \<int> \<and> \<bar>v\<bar> \<le> real B}"
    using assms(4) small_integer_values [OF small] by (simp add: list_all_iff)
  show ?thesis
    unfolding A
    by (rule population_variance_exact_results
          [OF assms(1,2,3) xs assms(5,6) exact_results_double_arith
              safe_values_small_integers [OF bound assms(1)]])
qed

text \<open>
  C2, as claimed: at every tick the output equals the population variance recomputed
  directly from the last \<open>windowSize\<close> samples. In the arithmetic of \<open>double\<close> it
  does not: the accumulators keep the rounding errors of the samples that have left the
  window. For window size 3 and the stream \<open>2\<^sup>2\<^sup>7 + 1, \<dots>, 2\<^sup>2\<^sup>7 + 5\<close> the output at
  tick 4 is the binary64 number nearest to \<open>- 8 / 3\<close>, where the direct recomputation
  from the last three samples gives \<open>0\<close> in binary64 arithmetic and \<open>2 / 3\<close> in exact
  arithmetic.
\<close>

theorem ComputeOutput_population_variance_counterexample:
  "ComputeOutputs double_arith (IncrementalVarianceFeature ''var'' 1 3)
      [[134217729], [134217730], [134217731], [134217732], [134217733]] ! 3 =
     Inr [- 6004799503160661 / 2251799813685248] \<and>
   map (populationVariance double_arith 3 [[134217730], [134217731], [134217732]]) [0..<1] = [0] \<and>
   map (populationVariance exact_arith 3 [[134217730], [134217731], [134217732]]) [0..<1] = [2 / 3]"
proof -
  note ev = populationVariance_def direct_sum_def direct_sum_sq_def Let_def
    round_binary64_def binade_def scale2_def round_half_even_def
  have "ComputeOutputs double_arith (IncrementalVarianceFeature ''var'' 1 3)
      [[134217729], [134217730], [134217731], [134217732], [134217733]] =
    [Inr [8006399456852195 / 2], Inr [8006399516504515 / 2], Inr [0],
     Inr [- 6004799503160661 / 2251799813685248], Inr [6004799503160661 / 2251799813685248]]"
    by (simp add: ComputeOutput_closed IncrementalVarianceFeature_def next_runningSum_def
        next_runningSumSq_def leaving_sample_def variance_vector_def GetDelayedSamples_def
        size_t_sub_def resize_def ev)
  moreover have "map (populationVariance double_arith 3 [[134217730], [134217731], [134217732]]) [0..<1] = [0]"
    by (simp add: ev)
  moreover have "map (populationVariance exact_arith 3 [[134217730], [134217731], [134217732]]) [0..<1] = [2 / 3]"
    by (simp add: ev)
  ultimately show ?thesis by simp
qed

theorem ComputeOutput_population_variance_witness:
  "0 < (3::nat) \<and> (3::nat) < 2 ^ 64 \<and> 0 < (1::nat) \<and>
   list_all (\<lambda>x. length x = 1) [[1], [2], [3], [4], [5::real]] \<and>
   list_all (list_all (small_integer 5)) [[1], [2], [3], [4], [5]] \<and> (3::nat) * 5\<^sup>2 < 2 ^ 53 \<and>
   ComputeOutputs double_arith (IncrementalVarianceFeature ''var'' 1 3) [[1], [2], [3], [4], [5]] ! 2 =
     Inr [6004799503160661 / 9007199254740992] \<and>
   ComputeOutputs double_arith (IncrementalVarianceFeature ''var'' 1 3) [[1], [2], [3], [4], [5]] ! 3 =
     Inr [6004799503160661 / 9007199254740992] \<and>
   ComputeOutputs double_arith (IncrementalVarianceFeature ''var'' 1 3) [[1], [2], [3], [4], [5]] ! 4 =
     Inr [6004799503160661 / 9007199254740992] \<and>
   ComputeOutputs exact_arith (IncrementalVarianceFeature ''var'' 1 3) [[1], [2], [3], [4], [5]] ! 2 =
     Inr [2 / 3] \<and>
   ComputeOutputs exact_arith (IncrementalVarianceFeature ''var'' 1 3) [[1], [2], [3], [4], [5]] ! 3 =
     Inr [2 / 3] \<and>
   ComputeOutputs exact_arith (IncrementalVarianceFeature ''var'' 1 3) [[1], [2], [3], [4], [5]] ! 4 =
     Inr [2 / 3]"
proof -
  have h: "0 < (3::nat)" "(3::nat) < 2 ^ 64" "0 < (1::nat)"
    "list_all (\<lambda>x. length x = 1) [[1], [2], [3], [4], [5::real]]"
    "list_all (list_all (small_integer 5)) [[1], [2], [3], [4], [5]]" "(3::nat) * 5\<^sup>2 < 2 ^ 53"
    by (simp_all add: small_integer_def)
  have dbl: "double_arith = exact_arith \<or>
      double_arith = double_arith \<and> list_all (list_all (small_integer 5)) [[1], [2], [3], [4], [5]] \<and>
      (3::nat) * 5\<^sup>2 < 2 ^ 53"
    using h(5,6) by simp
  have ex: "exact_arith = exact_arith \<or>
      exact_arith = double_arith \<and> list_all (list_all (small_integer 5)) [[1], [2], [3], [4], [5]] \<and>
      (3::nat) * 5\<^sup>2 < 2 ^ 53"
    by simp
  note ev = populationVariance_def direct_sum_def direct_sum_sq_def Let_def
    round_binary64_def binade_def scale2_def round_half_even_def
  have d3: "ComputeOutputs double_arith (IncrementalVarianceFeature ''var'' 1 3) [[1], [2], [3], [4], [5]] ! 2 =
     Inr [6004799503160661 / 9007199254740992]"
    using ComputeOutput_population_variance [OF h(1,2,3,4) _ _ dbl, of 3 "''var''" 1]
    by (simp add: ev)
  have d4: "ComputeOutputs double_arith (IncrementalVarianceFeature ''var'' 1 3) [[1], [2], [3], [4], [5]] ! 3 =
     Inr [6004799503160661 / 9007199254740992]"
    using ComputeOutput_population_variance [OF h(1,2,3,4) _ _ dbl, of 4 "''var''" 1]
    by (simp add: ev)
  have d5: "ComputeOutputs double_arith (IncrementalVarianceFeature ''var'' 1 3) [[1], [2], [3], [4], [5]] ! 4 =
     Inr [6004799503160661 / 9007199254740992]"
    using ComputeOutput_population_variance [OF h(1,2,3,4) _ _ dbl, of 5 "''var''" 1]
    by (simp add: ev)
  have e3: "ComputeOutputs exact_arith (IncrementalVarianceFeature ''var'' 1 3) [[1], [2], [3], [4], [5]] ! 2 =
     Inr [2 / 3]"
    using ComputeOutput_population_variance [OF h(1,2,3,4) _ _ ex, of 3 "''var''" 1]
    by (simp add: ev)
  have e4: "ComputeOutputs exact_arith (IncrementalVarianceFeature ''var'' 1 3) [[1], [2], [3], [4], [5]] ! 3 =
     Inr [2 / 3]"
    using ComputeOutput_population_variance [OF h(1,2,3,4) _ _ ex, of 4 "''var''" 1]
    by (simp add: ev)
  have e5: "ComputeOutputs exact_arith (IncrementalVarianceFeature ''var'' 1 3) [[1], [2], [3], [4], [5]] ! 4 =
     Inr [2 / 3]"
    using ComputeOutput_population_variance [OF h(1,2,3,4) _ _ ex, of 5 "''var''" 1]
    by (simp add: ev)
  show ?thesis
    by (intro conjI h d3 d4 d5 e3 e4 e5)
qed

section \<open>Lowering refines the evaluator\<close>

lemma those_map_Some [simp]: "those (map (\<lambda>x. Some (g x)) xs) = Some (map g xs)"
  by (induction xs) simp_all

lemma those_Some_length: "those os = Some xs \<Longrightarrow> length xs = length os"
  by (induction os arbitrary: xs) (auto split: option.splits)

lemma fetchAll_length: "fetchAll vals cs = Some x \<Longrightarrow> length x = length cs"
  by (auto simp: fetchAll_def dest: those_Some_length)

lemma fetch_append: "fetch vals c = Some v \<Longrightarrow> fetch (vals @ extra) c = Some v"
  by (auto simp: fetch_def nth_append split: prod.splits if_splits)

lemma fetchAll_append: "fetchAll vals cs = Some x \<Longrightarrow> fetchAll (vals @ extra) cs = Some x"
  unfolding fetchAll_def
  by (induction cs arbitrary: x) (auto split: option.splits simp: fetch_append)

lemma fetchAll_map:
  assumes "l < length vals" and "\<forall>e\<in>set es. g e < length (vals ! l)"
  shows "fetchAll vals (map (\<lambda>e. (l, g e)) es) = Some (map (\<lambda>e. vals ! l ! g e) es)"
proof -
  have "map (fetch vals) (map (\<lambda>e. (l, g e)) es) = map (\<lambda>e. Some (vals ! l ! g e)) es"
    using assms by (simp add: fetch_def)
  then show ?thesis
    unfolding fetchAll_def by (simp only: those_map_Some)
qed

lemma fetchAll_layer:
  assumes "l < length vals" and "vals ! l = out"
  shows "fetchAll vals (map (\<lambda>e. (l, e)) [0..<length out]) = Some out"
  using fetchAll_map [of l vals "[0..<length out]" "\<lambda>e. e"] assms
  by (simp add: map_nth)

text \<open>The twelve Layers of the lowering, for a Model of \<open>n\<close> Layers.\<close>

definition layer_output :: "nat \<Rightarrow> nat \<Rightarrow> CoordinateList" where
  "layer_output l d = map (\<lambda>e. (l, e)) [0..<d]"

definition variance_layers :: "'a arith \<Rightarrow> nat \<Rightarrow> CoordinateList \<Rightarrow> nat \<Rightarrow> 'a Layer list" where
  "variance_layers A n ic w =
     (let d = length ic;
          divisorVector = replicate d (n + 1, 0);
          oldestSample = map (\<lambda>e. (n + 2, e)) [w * d..<w * d + d]
      in [ConstantLayer [of_size_t A w],
          ShiftRegisterLayer ic (w + 1),
          BinaryOperationLayer ic oldestSample subtract,
          AccumulatorLayer (layer_output (n + 3) d),
          BinaryOperationLayer (layer_output (n + 4) d) (layer_output (n + 4) d) multiply,
          BinaryOperationLayer (layer_output (n + 5) d) divisorVector divide_op,
          BinaryOperationLayer ic ic multiply,
          BinaryOperationLayer oldestSample oldestSample multiply,
          BinaryOperationLayer (layer_output (n + 7) d) (layer_output (n + 8) d) subtract,
          AccumulatorLayer (layer_output (n + 9) d),
          BinaryOperationLayer (layer_output (n + 10) d) (layer_output (n + 6) d) subtract,
          BinaryOperationLayer (layer_output (n + 11) d) divisorVector divide_op])"

lemma take_drop_map_upt:
  "k + d \<le> m \<Longrightarrow> take d (drop k (map g [0..<m])) = map g [k..<k + d]"
  by (simp add: drop_map take_map drop_upt take_upt)

lemma RepeatCoordinates_single: "RepeatCoordinates [c] n = replicate n c"
  by (induction n) (simp_all add: RepeatCoordinates_def)

lemma delayed_coordinates:
  assumes "m = length ic * depth" and "k < depth"
  shows "GetDelayedOutputCoordinates (ShiftRegisterLayer ic depth) (map (Pair l) [0..<m]) k =
     map (Pair l) [k * length ic..<k * length ic + length ic]"
proof -
  have "Suc k * length ic \<le> depth * length ic"
    using assms(2) by (intro mult_le_mono1) simp
  then have "k * length ic + length ic \<le> m"
    using assms(1) by (simp add: mult.commute)
  then show ?thesis
    by (simp add: take_drop_map_upt)
qed

lemma AddToModel_closed:
  assumes "inputFeatures f = inputFeature # rest"
    and "featureOutputs inputFeature = Some ic"
    and "window_size f + 1 < 2 ^ 64"
  shows "AddToModel A f model featureOutputs =
     (model @ variance_layers A (length model) ic (window_size f),
      Inr (layer_output (length model + 12) (length ic)))"
  using assms
  by (simp add: AddToModel_def EmplaceLayer_def GetLastLayer_def Let_def NumLayers_def
        GetWindowSize_def size_t_add_def variance_layers_def layer_output_def
        RepeatCoordinates_single delayed_coordinates
      del: GetDelayedOutputCoordinates.simps)

lemma computeLayers_append:
  "length ls1 = length ss1 \<Longrightarrow>
   computeLayers A (ls1 @ ls2) (ss1 @ ss2) vals =
     (case computeLayers A ls1 ss1 vals of
        None \<Rightarrow> None
      | Some (v1, ss1') \<Rightarrow>
          (case computeLayers A ls2 ss2 v1 of
             None \<Rightarrow> None
           | Some (v2, ss2') \<Rightarrow> Some (v2, ss1' @ ss2')))"
proof (induction ls1 arbitrary: ss1 vals)
  case Nil
  then show ?case by (simp split: option.splits)
next
  case (Cons l ls1)
  then obtain s ss where ss1: "ss1 = s # ss" and len: "length ls1 = length ss"
    by (cases ss1) auto
  show ?case
    by (simp add: ss1 Cons.IH [OF len] split: option.splits prod.splits)
qed

lemma computeLayers_lengths:
  "computeLayers A ls ss vals = Some (v, ss') \<Longrightarrow>
   length v = length vals + length ls \<and> length ss' = length ls"
proof (induction ls arbitrary: ss vals v ss')
  case Nil
  then show ?case by (cases ss) simp_all
next
  case (Cons l ls)
  then obtain s rest where ss: "ss = s # rest" by (cases ss) auto
  from Cons.prems obtain out s' v' rest' where
    a: "computeLayer A vals l s = Some (out, s')" and
    b: "computeLayers A ls rest (vals @ [out]) = Some (v', rest')" and
    c: "v = v'" "ss' = s' # rest'"
    by (auto simp: ss split: option.splits prod.splits)
  from Cons.IH [OF b] c show ?case by simp
qed

lemma fetchAll_replicate:
  "fetch vals c = Some v \<Longrightarrow> fetchAll vals (replicate d c) = Some (replicate d v)"
  by (induction d) (simp_all add: fetchAll_def)

lemma concat_slice:
  assumes "\<forall>s\<in>set buf. length s = d" and "k < length buf"
  shows "map (nth (concat buf)) [k * d..<k * d + d] = buf ! k"
  using assms
proof (induction buf arbitrary: k)
  case Nil
  then show ?case by simp
next
  case (Cons b buf)
  show ?case
  proof (cases k)
    case 0
    then show ?thesis
      using Cons.prems by (auto intro!: nth_equalityI simp: nth_append)
  next
    case (Suc j)
    have "map (nth (concat (b # buf))) [k * d..<k * d + d] = map (nth (concat buf)) [j * d..<j * d + d]"
      using Cons.prems
      by (intro nth_equalityI) (simp_all add: Suc nth_append)
    then show ?thesis
      using Cons.IH [of j] Cons.prems by (simp add: Suc)
  qed
qed


text \<open>The states of the twelve Layers: one shift register and two accumulators.\<close>

definition variance_states :: "'a list list \<Rightarrow> 'a list \<Rightarrow> 'a list \<Rightarrow> 'a LayerState list" where
  "variance_states buf a1 a2 =
     [Stateless, Register buf, Stateless, Accumulated a1, Stateless, Stateless, Stateless,
      Stateless, Stateless, Accumulated a2, Stateless, Stateless]"

lemma fetchAll_at:
  assumes "l < length vals" and "vals ! l = out" and "length out = d"
  shows "fetchAll vals (layer_output l d) = Some out"
  using fetchAll_layer [OF assms(1,2)] assms(3) by (simp add: layer_output_def)

lemma variance_layers_tick:
  fixes A :: "'a arith"
  assumes vals: "length vals = Suc n"
    and x: "fetchAll vals ic = Some x"
    and buf: "length buf = w + 1" "\<forall>s\<in>set buf. length s = length ic"
    and a1: "length a1 = length ic" and a2: "length a2 = length ic"
  defines "buf' \<equiv> take (w + 1) (x # buf)"
  defines "old \<equiv> buf' ! w"
  defines "s1 \<equiv> map2 (dadd A) a1 (map2 (dsub A) x old)"
  defines "s2 \<equiv> map2 (dadd A) a2 (map2 (dsub A) (map2 (dmul A) x x) (map2 (dmul A) old old))"
  shows "\<exists>outs. computeLayers A (variance_layers A n ic w) (variance_states buf a1 a2) vals =
           Some (vals @ outs, variance_states buf' s1 s2) \<and>
           length outs = 12 \<and> outs ! 11 = variance_vector A w s1 s2"
proof -
  let ?d = "length ic"
  have xl: "length x = ?d" using fetchAll_length [OF x] .
  have bl: "length buf' = w + 1" using buf(1) by (simp add: buf'_def)
  have be: "\<forall>s\<in>set buf'. length s = ?d"
    using buf(2) xl by (auto simp: buf'_def dest!: in_set_takeD)
  have ol: "length old = ?d" using be bl by (simp add: old_def)
  let ?cw = "of_size_t A w"
  let ?o1 = "[?cw]"
  let ?o2 = "concat buf'"
  let ?o3 = "map2 (dsub A) x old"
  let ?o4 = "s1"
  let ?o5 = "map2 (dmul A) s1 s1"
  let ?o6 = "map2 (ddiv A) ?o5 (replicate ?d ?cw)"
  let ?o7 = "map2 (dmul A) x x"
  let ?o8 = "map2 (dmul A) old old"
  let ?o9 = "map2 (dsub A) ?o7 ?o8"
  let ?o10 = "s2"
  let ?o11 = "map2 (dsub A) s2 ?o6"
  let ?o12 = "map2 (ddiv A) ?o11 (replicate ?d ?cw)"
  have s1l: "length s1 = ?d" and s2l: "length s2 = ?d"
    by (simp_all add: s1_def s2_def a1 a2 xl ol)
  note lens = xl ol s1l s2l
  have X: "fetchAll (vals @ extra) ic = Some x" for extra
    using fetchAll_append [OF x] .
  have O: "fetchAll (vals @ ?o1 # ?o2 # extra) (map (\<lambda>e. (n + 2, e)) [w * ?d..<w * ?d + ?d]) = Some old"
    for extra
  proof -
    have "fetchAll (vals @ ?o1 # ?o2 # extra) (map (\<lambda>e. (n + 2, e)) [w * ?d..<w * ?d + ?d]) =
        Some (map (\<lambda>e. (vals @ ?o1 # ?o2 # extra) ! (n + 2) ! e) [w * ?d..<w * ?d + ?d])"
    proof (rule fetchAll_map)
      show "n + 2 < length (vals @ ?o1 # ?o2 # extra)" using vals by simp
      have "length (concat buf') = (w + 1) * ?d"
        using be bl by (simp add: length_concat sum_list_triv cong: map_cong)
      then show "\<forall>e\<in>set [w * ?d..<w * ?d + ?d]. e < length ((vals @ ?o1 # ?o2 # extra) ! (n + 2))"
        using vals by (simp add: nth_append)
    qed
    also have "(vals @ ?o1 # ?o2 # extra) ! (n + 2) = concat buf'"
      using vals by (simp add: nth_append)
    also have "map (nth (concat buf')) [w * ?d..<w * ?d + ?d] = old"
      unfolding old_def using be bl by (intro concat_slice) simp_all
    finally show ?thesis .
  qed
  have D: "fetchAll (vals @ ?o1 # extra) (replicate ?d (n + 1, 0)) = Some (replicate ?d ?cw)" for extra
    using vals by (intro fetchAll_replicate) (simp add: fetch_def nth_append)
  have L1: "computeLayer A vals (ConstantLayer [?cw]) Stateless = Some (?o1, Stateless)"
    by simp
  have L2: "computeLayer A (vals @ [?o1]) (ShiftRegisterLayer ic (w + 1)) (Register buf) =
      Some (?o2, Register buf')"
    by (simp add: X buf'_def Let_def)
  have L3: "computeLayer A (vals @ [?o1, ?o2])
      (BinaryOperationLayer ic (map (\<lambda>e. (n + 2, e)) [w * ?d..<w * ?d + ?d]) subtract) Stateless =
      Some (?o3, Stateless)"
    using O [of "[]"] by (simp add: X lens)
  have L4: "computeLayer A (vals @ [?o1, ?o2, ?o3]) (AccumulatorLayer (layer_output (n + 3) ?d))
      (Accumulated a1) = Some (?o4, Accumulated s1)"
    using vals by (simp add: fetchAll_at nth_append lens a1 s1_def Let_def)
  have L5: "computeLayer A (vals @ [?o1, ?o2, ?o3, ?o4])
      (BinaryOperationLayer (layer_output (n + 4) ?d) (layer_output (n + 4) ?d) multiply) Stateless =
      Some (?o5, Stateless)"
    using vals by (simp add: fetchAll_at nth_append lens)
  have L6: "computeLayer A (vals @ [?o1, ?o2, ?o3, ?o4, ?o5])
      (BinaryOperationLayer (layer_output (n + 5) ?d) (replicate ?d (n + 1, 0)) divide_op) Stateless =
      Some (?o6, Stateless)"
    using vals D [of "[?o2, ?o3, ?o4, ?o5]"] by (simp add: fetchAll_at nth_append lens)
  have L7: "computeLayer A (vals @ [?o1, ?o2, ?o3, ?o4, ?o5, ?o6])
      (BinaryOperationLayer ic ic multiply) Stateless = Some (?o7, Stateless)"
    by (simp add: X)
  have L8: "computeLayer A (vals @ [?o1, ?o2, ?o3, ?o4, ?o5, ?o6, ?o7])
      (BinaryOperationLayer (map (\<lambda>e. (n + 2, e)) [w * ?d..<w * ?d + ?d])
         (map (\<lambda>e. (n + 2, e)) [w * ?d..<w * ?d + ?d]) multiply) Stateless = Some (?o8, Stateless)"
    using O [of "[?o3, ?o4, ?o5, ?o6, ?o7]"] by (simp add: lens)
  have L9: "computeLayer A (vals @ [?o1, ?o2, ?o3, ?o4, ?o5, ?o6, ?o7, ?o8])
      (BinaryOperationLayer (layer_output (n + 7) ?d) (layer_output (n + 8) ?d) subtract) Stateless =
      Some (?o9, Stateless)"
    using vals by (simp add: fetchAll_at nth_append lens)
  have L10: "computeLayer A (vals @ [?o1, ?o2, ?o3, ?o4, ?o5, ?o6, ?o7, ?o8, ?o9])
      (AccumulatorLayer (layer_output (n + 9) ?d)) (Accumulated a2) = Some (?o10, Accumulated s2)"
    using vals by (simp add: fetchAll_at nth_append lens a2 s2_def Let_def)
  have L11: "computeLayer A (vals @ [?o1, ?o2, ?o3, ?o4, ?o5, ?o6, ?o7, ?o8, ?o9, ?o10])
      (BinaryOperationLayer (layer_output (n + 10) ?d) (layer_output (n + 6) ?d) subtract) Stateless =
      Some (?o11, Stateless)"
    using vals by (simp add: fetchAll_at nth_append lens)
  have L12: "computeLayer A (vals @ [?o1, ?o2, ?o3, ?o4, ?o5, ?o6, ?o7, ?o8, ?o9, ?o10, ?o11])
      (BinaryOperationLayer (layer_output (n + 11) ?d) (replicate ?d (n + 1, 0)) divide_op) Stateless =
      Some (?o12, Stateless)"
    using vals D [of "[?o2, ?o3, ?o4, ?o5, ?o6, ?o7, ?o8, ?o9, ?o10, ?o11]"]
    by (simp add: fetchAll_at nth_append lens)
  have run: "computeLayers A (variance_layers A n ic w) (variance_states buf a1 a2) vals =
      Some (vals @ [?o1, ?o2, ?o3, ?o4, ?o5, ?o6, ?o7, ?o8, ?o9, ?o10, ?o11, ?o12],
            variance_states buf' s1 s2)"
    unfolding variance_layers_def variance_states_def Let_def
    by (simp only: computeLayers.simps L1 L2 L3 L4 L5 L6 L7 L8 L9 L10 L11 L12
          option.case prod.case append_assoc append_Cons append_Nil)
  have "?o12 = variance_vector A w s1 s2"
    by (simp add: variance_vector_def lens)
  then show ?thesis
    using run by (intro exI [of _ "[?o1, ?o2, ?o3, ?o4, ?o5, ?o6, ?o7, ?o8, ?o9, ?o10, ?o11, ?o12]"]) simp
qed

text \<open>
  The simulation relation after the samples \<open>hist\<close> (newest first): the evaluator's
  buffer holds the last \<open>w\<close> of them, the shift register the last \<open>w + 1\<close>, zero
  filled, and the two accumulator Layers hold the evaluator's running sums.
\<close>

definition refines ::
  "'a arith \<Rightarrow> nat \<Rightarrow> nat \<Rightarrow> 'a list list \<Rightarrow> 'a Feature \<Rightarrow> 'a list list \<Rightarrow> 'a list \<Rightarrow> 'a list \<Rightarrow> bool" where
  "refines A w d hist f buf a1 a2 \<longleftrightarrow>
     length (inputFeatures f) = 1 \<and> window_size f = w \<and> samples f = take w hist \<and>
     (\<forall>s\<in>set hist. length s = d) \<and>
     buf = padded_window A (w + 1) d hist \<and>
     a1 = resize A d (runningSum f) \<and> a2 = resize A d (runningSumSq f)"

lemma padded_window_nth:
  "k < w \<Longrightarrow> k < w' \<Longrightarrow> padded_window A w d hist ! k = padded_window A w' d hist ! k"
  by (simp add: padded_window_def nth_append)

lemma padded_window_push:
  "take (w + 1) (x # padded_window A (w + 1) d hist) = padded_window A (w + 1) d (x # hist)"
proof -
  have "take w (padded_window A (w + 1) d hist) = butlast (padded_window A (w + 1) d hist)"
    by (simp add: butlast_conv_take)
  then show ?thesis
    by (simp add: padded_window_Cons)
qed

lemma refines_step:
  assumes r: "refines A w d hist f buf a1 a2" and x: "length x = d" and d: "0 < d"
    and w: "0 < w" "w < 2 ^ 64"
  defines "buf' \<equiv> take (w + 1) (x # buf)"
  defines "s1 \<equiv> map2 (dadd A) a1 (map2 (dsub A) x (buf' ! w))"
  defines "s2 \<equiv> map2 (dadd A) a2
     (map2 (dsub A) (map2 (dmul A) x x) (map2 (dmul A) (buf' ! w) (buf' ! w)))"
  shows "ComputeOutput A f x = (fst (ComputeOutput A f x), Inr (variance_vector A w s1 s2))"
    and "refines A w d (x # hist) (fst (ComputeOutput A f x)) buf' s1 s2"
proof -
  have one: "length (inputFeatures f) = 1" and ws: "window_size f = w"
    and sm: "samples f = take w hist" and len: "\<forall>s\<in>set hist. length s = d"
    and buf: "buf = padded_window A (w + 1) d hist"
    and a1: "a1 = resize A d (runningSum f)" and a2: "a2 = resize A d (runningSumSq f)"
    using r by (simp_all add: refines_def)
  have ne: "x \<noteq> []" using x d by auto
  have b': "buf' = padded_window A (w + 1) d (x # hist)"
    by (simp only: buf'_def buf padded_window_push)
  have "buf' ! w = padded_window A (w + 1) d hist ! (w - 1)"
    using w(1) by (cases w) (simp_all add: b' padded_window_Cons nth_butlast)
  also have "\<dots> = padded_window A w d hist ! (w - 1)"
    using w(1) by (intro padded_window_nth) simp_all
  also have "\<dots> = leaving_sample A f x"
    using leaving_sample_window [OF w ws sm len x] by simp
  finally have old: "buf' ! w = leaving_sample A f x" .
  have s1: "s1 = next_runningSum A f x"
    by (simp add: s1_def next_runningSum_def old a1 x)
  have s2: "s2 = next_runningSumSq A f x"
    by (simp add: s2_def next_runningSumSq_def old a2 x)
  have tk: "take w (x # take w hist) = take w (x # hist)"
    using w(1) by (cases w) simp_all
  show "ComputeOutput A f x = (fst (ComputeOutput A f x), Inr (variance_vector A w s1 s2))"
    by (simp add: ComputeOutput_closed [OF one ne] s1 s2 ws)
  show "refines A w d (x # hist) (fst (ComputeOutput A f x)) buf' s1 s2"
    using one ws len x
    by (simp add: ComputeOutput_closed [OF one ne] refines_def sm tk b' s1 s2 resize_same)
qed

lemma refines_init:
  "refines A w d [] (IncrementalVarianceFeature fid p w)
     (replicate (w + 1) (replicate d (dzero A))) (replicate d (dzero A)) (replicate d (dzero A))"
  by (simp add: refines_def IncrementalVarianceFeature_def padded_window_def resize_def)

lemma variance_states_init:
  "map (InitialState A) (variance_layers A n ic w) =
     variance_states (replicate (w + 1) (replicate (length ic) (dzero A)))
       (replicate (length ic) (dzero A)) (replicate (length ic) (dzero A))"
  by (simp add: variance_layers_def variance_states_def layer_output_def Let_def)

lemma simulate_refines:
  assumes w: "0 < w" "w < 2 ^ 64" and d: "0 < length ic"
  shows "refines A w (length ic) hist f buf a1 a2 \<Longrightarrow> length ss0 = length m0 \<Longrightarrow>
     simulate A m0 ss0 xs = Some vs0 \<Longrightarrow>
     those (map (\<lambda>vals. fetchAll vals ic) vs0) = Some smp \<Longrightarrow>
     \<exists>vs1 outputs.
       simulate A (m0 @ variance_layers A (length m0) ic w) (ss0 @ variance_states buf a1 a2) xs
         = Some vs1 \<and>
       ComputeOutputs A f smp = map Inr outputs \<and>
       map (\<lambda>vals. fetchAll vals (layer_output (length m0 + 12) (length ic))) vs1 = map Some outputs"
proof (induction xs arbitrary: hist f buf a1 a2 ss0 vs0 smp)
  case Nil
  then show ?case by (auto intro: exI [of _ "[]"])
next
  case (Cons x xs)
  let ?d = "length ic" and ?n = "length m0"
  from Cons.prems(3) obtain vals ss0' rest where
    tick0: "computeLayers A m0 ss0 [x] = Some (vals, ss0')" and
    rest0: "simulate A m0 ss0' xs = Some rest" and vs0: "vs0 = vals # rest"
    by (auto split: option.splits prod.splits)
  from Cons.prems(4) obtain s smp' where
    s: "fetchAll vals ic = Some s" and smp': "those (map (\<lambda>vals. fetchAll vals ic) rest) = Some smp'"
    and smp: "smp = s # smp'"
    by (auto simp: vs0 split: option.splits)
  have sl: "length s = ?d" using fetchAll_length [OF s] .
  have vl: "length vals = Suc ?n" and sl0: "length ss0' = ?n"
    using computeLayers_lengths [OF tick0] by simp_all
  have buf: "buf = padded_window A (w + 1) ?d hist"
    and a1: "a1 = resize A ?d (runningSum f)" and a2: "a2 = resize A ?d (runningSumSq f)"
    and hl: "\<forall>s\<in>set hist. length s = ?d"
    using Cons.prems(1) by (simp_all add: refines_def)
  define buf' where "buf' = take (w + 1) (s # buf)"
  define s1 where "s1 = map2 (dadd A) a1 (map2 (dsub A) s (buf' ! w))"
  define s2 where "s2 = map2 (dadd A) a2
     (map2 (dsub A) (map2 (dmul A) s s) (map2 (dmul A) (buf' ! w) (buf' ! w)))"
  have "\<forall>t\<in>set buf. length t = ?d"
    using padded_window_lengths [OF hl] buf by blast
  then obtain outs where
    tick1: "computeLayers A (variance_layers A ?n ic w) (variance_states buf a1 a2) vals =
       Some (vals @ outs, variance_states buf' s1 s2)"
    and ol: "length outs = 12" and o11: "outs ! 11 = variance_vector A w s1 s2"
    using variance_layers_tick [OF vl s, of buf w a1 a2 A]
    by (auto simp: buf a1 a2 buf'_def s1_def s2_def)
  have tick: "computeLayers A (m0 @ variance_layers A ?n ic w) (ss0 @ variance_states buf a1 a2) [x] =
     Some (vals @ outs, ss0' @ variance_states buf' s1 s2)"
    by (simp add: computeLayers_append [OF Cons.prems(2) [symmetric]] tick0 tick1)
  define f' where "f' = fst (ComputeOutput A f s)"
  have co: "ComputeOutput A f s = (f', Inr (variance_vector A w s1 s2))"
    and inv: "refines A w ?d (s # hist) f' buf' s1 s2"
    using refines_step [OF Cons.prems(1) sl d w] by (simp_all add: buf'_def s1_def s2_def f'_def)
  have s1l: "length s1 = ?d" and s2l: "length s2 = ?d"
    using inv by (simp_all add: refines_def)
  have out: "fetchAll (vals @ outs) (layer_output (?n + 12) ?d) = Some (variance_vector A w s1 s2)"
    using vl ol o11 s1l s2l by (intro fetchAll_at) (simp_all add: nth_append)
  from Cons.IH [OF inv sl0 rest0 smp'] obtain vs1 outputs where
    sim: "simulate A (m0 @ variance_layers A ?n ic w) (ss0' @ variance_states buf' s1 s2) xs = Some vs1"
    and cos: "ComputeOutputs A f' smp' = map Inr outputs"
    and eq: "map (\<lambda>vals. fetchAll vals (layer_output (?n + 12) ?d)) vs1 = map Some outputs"
    by blast
  have "simulate A (m0 @ variance_layers A ?n ic w) (ss0 @ variance_states buf a1 a2) (x # xs) =
      Some ((vals @ outs) # vs1)"
    by (simp add: tick sim)
  moreover have "ComputeOutputs A f smp = map Inr (variance_vector A w s1 s2 # outputs)"
    by (simp add: smp co cos)
  moreover have "map (\<lambda>vals. fetchAll vals (layer_output (?n + 12) ?d)) ((vals @ outs) # vs1) =
      map Some (variance_vector A w s1 s2 # outputs)"
    by (simp add: out eq)
  ultimately show ?case by blast
qed

text \<open>
  C1. Let a Model run over any sequence of input vectors, and let the coordinates of the
  variance feature's input carry, tick by tick, the samples \<open>inputSamples\<close>. For a
  window size from 1 to \<open>2\<^sup>6\<^sup>4 - 2\<close> and an input of non-zero width, the Model that
  \<open>AddToModel\<close> returns runs over the same input vectors, and at every tick the
  coordinates it returns carry, in every dimension, exactly the vector that \<open>ComputeOutput\<close>
  returns when a new feature is advanced over \<open>inputSamples\<close>. This holds for every
  arithmetic of \<open>double\<close>.
\<close>

theorem AddToModel_refines_ComputeOutput:
  assumes "0 < windowSize" and "windowSize + 1 < 2 ^ 64"
    and "featureOutputs inputFeature = Some inputCoordinates" and "inputCoordinates \<noteq> []"
    and "simulate A model (map (InitialState A) model) xs = Some vs0"
    and "those (map (\<lambda>vals. fetchAll vals inputCoordinates) vs0) = Some inputSamples"
  shows "\<exists>model' variance vs1 outputs.
     AddToModel A (IncrementalVarianceFeature fid inputFeature windowSize) model featureOutputs =
       (model', Inr variance) \<and>
     simulate A model' (map (InitialState A) model') xs = Some vs1 \<and>
     ComputeOutputs A (IncrementalVarianceFeature fid inputFeature windowSize) inputSamples =
       map Inr outputs \<and>
     map (\<lambda>vals. fetchAll vals variance) vs1 = map Some outputs"
proof -
  let ?f = "IncrementalVarianceFeature fid inputFeature windowSize :: 'a Feature"
  let ?d = "length inputCoordinates" and ?n = "length model"
  have add: "AddToModel A ?f model featureOutputs =
      (model @ variance_layers A ?n inputCoordinates windowSize, Inr (layer_output (?n + 12) ?d))"
    using AddToModel_closed [of ?f inputFeature "[]" featureOutputs inputCoordinates A model] assms(2,3)
    by (simp add: IncrementalVarianceFeature_def)
  have w: "windowSize < 2 ^ 64" using assms(2) by simp
  have d: "0 < ?d" using assms(4) by simp
  from simulate_refines [OF assms(1) w d refines_init _ assms(5,6), of fid inputFeature]
  obtain vs1 outputs where
    "simulate A (model @ variance_layers A ?n inputCoordinates windowSize)
       (map (InitialState A) (model @ variance_layers A ?n inputCoordinates windowSize)) xs = Some vs1"
    "ComputeOutputs A ?f inputSamples = map Inr outputs"
    "map (\<lambda>vals. fetchAll vals (layer_output (?n + 12) ?d)) vs1 = map Some outputs"
    by (auto simp: variance_states_init)
  then show ?thesis
    using add by blast
qed

theorem AddToModel_refines_ComputeOutput_witness:
  "0 < (3::nat) \<and> (3::nat) + 1 < 2 ^ 64 \<and>
   [7 \<mapsto> [(1, 0)]] (7::FeaturePtr) = Some [(1, 0)] \<and> [(1::nat, 0::nat)] \<noteq> [] \<and>
   simulate exact_arith [BinaryOperationLayer [(0, 0)] [(0, 0)] add]
     (map (InitialState exact_arith) [BinaryOperationLayer [(0, 0)] [(0, 0)] add])
     [[1], [2], [3]] = Some [[[1], [2]], [[2], [4]], [[3], [6]]] \<and>
   those (map (\<lambda>vals. fetchAll vals [(1, 0)]) [[[1], [2]], [[2], [4]], [[3], [6::real]]]) =
     Some [[2], [4], [6]] \<and>
   (\<exists>model' variance vs1 outputs.
      AddToModel exact_arith (IncrementalVarianceFeature ''var'' 7 3)
        [BinaryOperationLayer [(0, 0)] [(0, 0)] add] [7 \<mapsto> [(1, 0)]] = (model', Inr variance) \<and>
      simulate exact_arith model' (map (InitialState exact_arith) model') [[1], [2], [3]] = Some vs1 \<and>
      ComputeOutputs exact_arith (IncrementalVarianceFeature ''var'' 7 3) [[2], [4], [6]] =
        map Inr outputs \<and>
      map (\<lambda>vals. fetchAll vals variance) vs1 = map Some outputs)"
proof -
  have sim: "simulate exact_arith [BinaryOperationLayer [(0, 0)] [(0, 0)] add]
     (map (InitialState exact_arith) [BinaryOperationLayer [(0, 0)] [(0, 0)] add])
     [[1], [2], [3]] = Some [[[1], [2]], [[2], [4]], [[3], [6]]]"
    by (simp add: fetchAll_def fetch_def)
  have smp: "those (map (\<lambda>vals. fetchAll vals [(1, 0)]) [[[1], [2]], [[2], [4]], [[3], [6::real]]]) =
     Some [[2], [4], [6]]"
    by (simp add: fetchAll_def fetch_def)
  have h1: "0 < (3::nat)" and h2: "(3::nat) + 1 < 2 ^ 64"
    and h3: "[7 \<mapsto> [(1, 0)]] (7::FeaturePtr) = Some [(1, 0)]" and h4: "[(1::nat, 0::nat)] \<noteq> []"
    by simp_all
  show ?thesis
    by (intro conjI h1 h2 h3 h4 sim smp
          AddToModel_refines_ComputeOutput [where featureOutputs = "[7 \<mapsto> [(1, 0)]]"
            and inputFeature = 7, OF h1 h2 h3 h4 sim smp])
qed

section \<open>Lowering needs the input feature's coordinates\<close>

lemma valid_coordinate_append:
  "valid_coordinate model c \<Longrightarrow> valid_coordinate (model @ extra) c"
  by (cases c) (auto simp: valid_coordinate_def nth_append)

lemma valid_coordinates_append:
  "list_all (valid_coordinate model) cs \<Longrightarrow> list_all (valid_coordinate (model @ extra)) cs"
  by (simp add: list_all_iff valid_coordinate_append)

lemma length_layer_output [simp]: "length (layer_output l d) = d"
  by (simp add: layer_output_def)

lemma valid_layer_output:
  assumes "0 < k" and "k \<le> length extra" and "d \<le> OutputSize (extra ! (k - 1))"
  shows "list_all (valid_coordinate (model @ extra)) (layer_output (length model + k) d)"
proof -
  have idx: "length model + k - 1 = length model + (k - 1)" using assms(1) by arith
  have "(model @ extra) ! (length model + k - 1) = extra ! (k - 1)"
    unfolding idx by simp
  then show ?thesis
    using assms
    by (simp add: list_all_iff layer_output_def valid_coordinate_def One_nat_def [symmetric]
          del: One_nat_def)
qed

lemma variance_layers_accepted:
  assumes "list_all (valid_coordinate model) ic"
  shows "accepted_from model (variance_layers A (length model) ic w)"
proof -
  let ?d = "length ic" and ?n = "length model"
  have ic: "list_all (valid_coordinate (model @ extra)) ic" for extra
    using valid_coordinates_append [OF assms] .
  have div: "list_all (valid_coordinate (model @ ConstantLayer [of_size_t A w] # extra))
       (replicate ?d (?n + 1, 0))" for extra
    by (simp add: list_all_iff valid_coordinate_def nth_append)
  have old: "list_all (valid_coordinate
        (model @ ConstantLayer [of_size_t A w] # ShiftRegisterLayer ic (w + 1) # extra))
       (map (\<lambda>e. (?n + 2, e)) [w * ?d..<w * ?d + ?d])" for extra
    by (simp add: list_all_iff valid_coordinate_def nth_append algebra_simps)
  show ?thesis
    unfolding variance_layers_def Let_def
    using ic [of "[]"] div old
    by (simp add: accepts_def ic valid_layer_output del: replicate.simps)
qed

text \<open>
  C5. If the feature's input feature has no entry in \<open>featureOutputs\<close>, \<open>AddToModel\<close>
  throws the illegal-state exception and the Model is as it was: no Layer has been
  appended. If the entry is present, its coordinates are valid in the Model and the window
  size plus one is a \<open>size_t\<close>, lowering proceeds: it appends the twelve Layers of
  \<open>variance_layers\<close>, wired as lines 94 to 118 wire them, each of which is accepted by
  the checks of construction, and returns the coordinates of the last one.
\<close>

theorem AddToModel_lookup:
  "inputFeatures f = inputFeature # rest \<Longrightarrow>
   (featureOutputs inputFeature = None \<longrightarrow>
      AddToModel A f model featureOutputs =
        (model, Inl (Exception illegalState ''Couldn't find input feature''))) \<and>
   (\<forall>inputCoordinates.
      featureOutputs inputFeature = Some inputCoordinates \<and>
      list_all (valid_coordinate model) inputCoordinates \<and> window_size f + 1 < 2 ^ 64 \<longrightarrow>
      AddToModel A f model featureOutputs =
        (model @ variance_layers A (length model) inputCoordinates (window_size f),
         Inr (layer_output (length model + 12) (length inputCoordinates))) \<and>
      accepted_from model (variance_layers A (length model) inputCoordinates (window_size f)))"
proof (intro conjI allI impI)
  assume "inputFeatures f = inputFeature # rest" "featureOutputs inputFeature = None"
  then show "AddToModel A f model featureOutputs =
        (model, Inl (Exception illegalState ''Couldn't find input feature''))"
    by (simp add: AddToModel_def)
next
  fix inputCoordinates
  assume f: "inputFeatures f = inputFeature # rest"
    and h: "featureOutputs inputFeature = Some inputCoordinates \<and>
      list_all (valid_coordinate model) inputCoordinates \<and> window_size f + 1 < 2 ^ 64"
  show "AddToModel A f model featureOutputs =
        (model @ variance_layers A (length model) inputCoordinates (window_size f),
         Inr (layer_output (length model + 12) (length inputCoordinates)))"
    using AddToModel_closed [OF f, of featureOutputs inputCoordinates A model] h by simp
  show "accepted_from model (variance_layers A (length model) inputCoordinates (window_size f))"
    using variance_layers_accepted h by blast
qed

theorem AddToModel_lookup_witness:
  "inputFeatures (IncrementalVarianceFeature ''var'' 7 3 :: real Feature) = 7 # [] \<and>
   (Map.empty :: FeaturePtr \<rightharpoonup> CoordinateList) 7 = None \<and>
   AddToModel exact_arith (IncrementalVarianceFeature ''var'' 7 3) [ConstantLayer [1]] Map.empty =
     ([ConstantLayer [1]], Inl (Exception illegalState ''Couldn't find input feature'')) \<and>
   [7 \<mapsto> [(1, 0)]] (7 :: FeaturePtr) = Some [(1, 0)] \<and>
   list_all (valid_coordinate [ConstantLayer [1 :: real]]) [(1, 0)] \<and>
   window_size (IncrementalVarianceFeature ''var'' 7 3 :: real Feature) + 1 < 2 ^ 64 \<and>
   AddToModel exact_arith (IncrementalVarianceFeature ''var'' 7 3) [ConstantLayer [1]]
       [7 \<mapsto> [(1, 0)]] =
     ([ConstantLayer [1],
       ConstantLayer [3],
       ShiftRegisterLayer [(1, 0)] 4,
       BinaryOperationLayer [(1, 0)] [(3, 3)] subtract,
       AccumulatorLayer [(4, 0)],
       BinaryOperationLayer [(5, 0)] [(5, 0)] multiply,
       BinaryOperationLayer [(6, 0)] [(2, 0)] divide_op,
       BinaryOperationLayer [(1, 0)] [(1, 0)] multiply,
       BinaryOperationLayer [(3, 3)] [(3, 3)] multiply,
       BinaryOperationLayer [(8, 0)] [(9, 0)] subtract,
       AccumulatorLayer [(10, 0)],
       BinaryOperationLayer [(11, 0)] [(7, 0)] subtract,
       BinaryOperationLayer [(12, 0)] [(2, 0)] divide_op],
      Inr [(13, 0)])"
proof -
  let ?f = "IncrementalVarianceFeature ''var'' 7 3 :: real Feature"
  have f: "inputFeatures ?f = 7 # []"
    by (simp add: IncrementalVarianceFeature_def)
  have h: "[7 \<mapsto> [(1, 0)]] (7 :: FeaturePtr) = Some [(1, 0)]"
    "list_all (valid_coordinate [ConstantLayer [1 :: real]]) [(1, 0)]"
    "window_size ?f + 1 < 2 ^ 64"
    by (simp_all add: valid_coordinate_def IncrementalVarianceFeature_def)
  have e: "(Map.empty :: FeaturePtr \<rightharpoonup> CoordinateList) 7 = None" by simp
  have 1: "AddToModel exact_arith ?f [ConstantLayer [1]] Map.empty =
     ([ConstantLayer [1]], Inl (Exception illegalState ''Couldn't find input feature''))"
    using AddToModel_lookup [OF f, of Map.empty exact_arith "[ConstantLayer [1]]"] by simp
  have 2: "AddToModel exact_arith ?f [ConstantLayer [1]] [7 \<mapsto> [(1, 0)]] =
     ([ConstantLayer [1]] @ variance_layers exact_arith (length [ConstantLayer [1 :: real]]) [(1, 0)]
         (window_size ?f),
      Inr (layer_output (length [ConstantLayer [1 :: real]] + 12) (length [(1 :: nat, 0 :: nat)])))"
    using AddToModel_lookup [OF f, of "[7 \<mapsto> [(1, 0)]]" exact_arith "[ConstantLayer [1]]"] h
    by blast
  have 3: "[ConstantLayer [1]] @ variance_layers exact_arith (length [ConstantLayer [1 :: real]]) [(1, 0)]
         (window_size ?f) =
      [ConstantLayer [1],
       ConstantLayer [3],
       ShiftRegisterLayer [(1, 0)] 4,
       BinaryOperationLayer [(1, 0)] [(3, 3)] subtract,
       AccumulatorLayer [(4, 0)],
       BinaryOperationLayer [(5, 0)] [(5, 0)] multiply,
       BinaryOperationLayer [(6, 0)] [(2, 0)] divide_op,
       BinaryOperationLayer [(1, 0)] [(1, 0)] multiply,
       BinaryOperationLayer [(3, 3)] [(3, 3)] multiply,
       BinaryOperationLayer [(8, 0)] [(9, 0)] subtract,
       AccumulatorLayer [(10, 0)],
       BinaryOperationLayer [(11, 0)] [(7, 0)] subtract,
       BinaryOperationLayer [(12, 0)] [(2, 0)] divide_op]"
    by (simp add: variance_layers_def layer_output_def IncrementalVarianceFeature_def Let_def)
  have 4: "layer_output (length [ConstantLayer [1 :: real]] + 12) (length [(1 :: nat, 0 :: nat)]) = [(13, 0)]"
    by (simp add: layer_output_def)
  show ?thesis
    by (intro conjI f e h 1) (simp only: 2 3 4)
qed

end
